theory Spec2Isabelle
  imports Complex_Main
begin

section \<open>Double-precision values\<close>

text \<open>
  The solver and the placer compute on C++ \<^verbatim>\<open>double\<close>. The code depends on the special
  values of that type (it stores \<^verbatim>\<open>quiet_NaN\<close>, calls \<^verbatim>\<open>hasNaN\<close>, divides by values that
  may be zero), so they are part of the model: a double is a finite value, one of the two
  infinities, or NaN. A finite result is the exact real, and a result beyond the largest
  finite double overflows to an infinity; rounding and the sign of zero are abstracted
  away.
\<close>

datatype double = Fin real | PInf | NInf | NaN

text \<open>
  The largest finite double, \<^verbatim>\<open>DBL_MAX = (2 - 2^-52) * 2^1023\<close>, and the double that an
  operation with the exact result \<open>x\<close> gives.
\<close>

definition DBL_MAX :: real where
  "DBL_MAX = (2 ^ 53 - 1) * 2 ^ 971"

definition dfin :: "real \<Rightarrow> double" where
  "dfin x = (if DBL_MAX < x then PInf else if x < - DBL_MAX then NInf else Fin x)"

fun isnan :: "double \<Rightarrow> bool" where
  "isnan NaN = True"
| "isnan _ = False"

fun isfinite :: "double \<Rightarrow> bool" where
  "isfinite (Fin _) = True"
| "isfinite _ = False"

fun dneg :: "double \<Rightarrow> double" where
  "dneg (Fin x) = Fin (- x)"
| "dneg PInf = NInf"
| "dneg NInf = PInf"
| "dneg NaN = NaN"

fun dadd :: "double \<Rightarrow> double \<Rightarrow> double" where
  "dadd (Fin x) (Fin y) = dfin (x + y)"
| "dadd (Fin x) PInf = PInf"
| "dadd (Fin x) NInf = NInf"
| "dadd PInf (Fin y) = PInf"
| "dadd PInf PInf = PInf"
| "dadd PInf NInf = NaN"
| "dadd NInf (Fin y) = NInf"
| "dadd NInf PInf = NaN"
| "dadd NInf NInf = NInf"
| "dadd NaN _ = NaN"
| "dadd _ NaN = NaN"

definition dsub :: "double \<Rightarrow> double \<Rightarrow> double" where
  "dsub a b = dadd a (dneg b)"

fun dmul :: "double \<Rightarrow> double \<Rightarrow> double" where
  "dmul (Fin x) (Fin y) = dfin (x * y)"
| "dmul (Fin x) PInf = (if x = 0 then NaN else if 0 < x then PInf else NInf)"
| "dmul (Fin x) NInf = (if x = 0 then NaN else if 0 < x then NInf else PInf)"
| "dmul PInf (Fin y) = (if y = 0 then NaN else if 0 < y then PInf else NInf)"
| "dmul NInf (Fin y) = (if y = 0 then NaN else if 0 < y then NInf else PInf)"
| "dmul PInf PInf = PInf"
| "dmul PInf NInf = NInf"
| "dmul NInf PInf = NInf"
| "dmul NInf NInf = PInf"
| "dmul NaN _ = NaN"
| "dmul _ NaN = NaN"

text \<open>Division; a zero divisor is taken as \<open>+0\<close>.\<close>

fun ddiv :: "double \<Rightarrow> double \<Rightarrow> double" where
  "ddiv (Fin x) (Fin y) =
     (if y = 0 then (if x = 0 then NaN else if 0 < x then PInf else NInf)
      else dfin (x / y))"
| "ddiv (Fin x) PInf = Fin 0"
| "ddiv (Fin x) NInf = Fin 0"
| "ddiv PInf (Fin y) = (if 0 \<le> y then PInf else NInf)"
| "ddiv NInf (Fin y) = (if 0 \<le> y then NInf else PInf)"
| "ddiv PInf PInf = NaN"
| "ddiv PInf NInf = NaN"
| "ddiv NInf PInf = NaN"
| "ddiv NInf NInf = NaN"
| "ddiv NaN _ = NaN"
| "ddiv _ NaN = NaN"

fun dexp :: "double \<Rightarrow> double" where
  "dexp (Fin x) = dfin (exp x)"
| "dexp PInf = PInf"
| "dexp NInf = Fin 0"
| "dexp NaN = NaN"

fun dabs :: "double \<Rightarrow> double" where
  "dabs (Fin x) = Fin \<bar>x\<bar>"
| "dabs PInf = PInf"
| "dabs NInf = PInf"
| "dabs NaN = NaN"

text \<open>The comparisons of C++: every comparison with NaN is false.\<close>

fun dless :: "double \<Rightarrow> double \<Rightarrow> bool" where
  "dless (Fin x) (Fin y) = (x < y)"
| "dless (Fin x) PInf = True"
| "dless NInf (Fin y) = True"
| "dless NInf PInf = True"
| "dless _ _ = False"

fun deq :: "double \<Rightarrow> double \<Rightarrow> bool" where
  "deq NaN _ = False"
| "deq _ NaN = False"
| "deq a b = (a = b)"

definition dgt :: "double \<Rightarrow> double \<Rightarrow> bool" where
  "dgt a b = dless b a"

definition dle :: "double \<Rightarrow> double \<Rightarrow> bool" where
  "dle a b = (dless a b \<or> deq a b)"

definition double_of_nat :: "nat \<Rightarrow> double" where
  "double_of_nat n = Fin (real n)"

definition double_of_int :: "int \<Rightarrow> double" where
  "double_of_int n = Fin (real_of_int n)"


section \<open>Errors and build configuration\<close>

text \<open>
  \<^verbatim>\<open>VTR_ASSERT\<close> and \<^verbatim>\<open>VTR_ASSERT_DEBUG\<close> are macros of the utility library; whether each
  of them is compiled in is decided by the build, so it is a parameter here. A failed
  assertion and the error raised by \<^verbatim>\<open>VPR_ERROR\<close> end the run; they are the \<open>Inl\<close> values
  of the functions below.
\<close>

datatype vtr_error =
    AssertionFailed string
  | PlaceError int

record build_config =
  assert_enabled :: bool
  assert_debug_enabled :: bool

section \<open>Netlist and partial placement\<close>

type_synonym AtomNetId = nat
type_synonym AtomPinId = nat
type_synonym AtomBlockId = nat

text \<open>
  The netlist as the solver reads it: the nets in iteration order, the pins of each net
  in order, and the block of each pin. \<^verbatim>\<open>net_pin_block(net, i)\<close> is the block of the pin
  at index \<open>i\<close> of the net; the loops call it with \<open>i\<close> below the number of pins only.
\<close>

record AtomNetlist =
  nets :: "AtomNetId list"
  net_pins :: "AtomNetId \<Rightarrow> AtomPinId list"
  pin_block :: "AtomPinId \<Rightarrow> AtomBlockId"

definition net_pin_block :: "AtomNetlist \<Rightarrow> AtomNetId \<Rightarrow> nat \<Rightarrow> AtomBlockId" where
  "net_pin_block nl net_id ipin = pin_block nl (net_pins nl net_id ! ipin)"

text \<open>
  The partial placement. Its class declaration is not part of the sources at hand; the
  two queries the solver calls on it, \<^verbatim>\<open>net_is_ignored_for_placement\<close> and
  \<^verbatim>\<open>get_node_id_from_blk\<close> (with the global molecule table it is given), are fields.
  The two position vectors are indexed by node; a read at a node beyond their length
  is undefined in the source, and nothing below depends on such a read.
\<close>

record PartialPlacement =
  atom_netlist :: AtomNetlist
  num_moveable_nodes :: nat
  node_loc_x :: "double list"
  node_loc_y :: "double list"
  net_is_ignored_for_placement :: "AtomNetId \<Rightarrow> bool"
  get_node_id_from_blk :: "AtomBlockId \<Rightarrow> nat"

text \<open>
  Modelled from the spec: \<^verbatim>\<open>PartialPlacement::is_moveable_node\<close> is declared outside the
  sources at hand. The unknowns of the linear system are the moveable nodes followed by
  the star nodes, and the solver writes its solution back to the nodes
  \<open>0 .. num_moveable_nodes - 1\<close>: the moveable nodes are those below
  \<open>num_moveable_nodes\<close>, the fixed nodes follow them.
\<close>

definition is_moveable_node :: "PartialPlacement \<Rightarrow> nat \<Rightarrow> bool" where
  "is_moveable_node p node_id = (node_id < num_moveable_nodes p)"

definition pin_node_id :: "PartialPlacement \<Rightarrow> AtomPinId \<Rightarrow> nat" where
  "pin_node_id p pin_id = get_node_id_from_blk p (pin_block (atom_netlist p) pin_id)"

text \<open>
  The nodes of the pins \<open>ipin = 0, ..., num_pins - 1\<close> of a net, each looked up as the
  clique branch does: \<^verbatim>\<open>get_node_id_from_blk(net_pin_block(net_id, ipin))\<close>.
\<close>

definition net_node_ids :: "PartialPlacement \<Rightarrow> AtomNetId \<Rightarrow> nat list" where
  "net_node_ids p net_id =
     map (\<lambda>ipin. get_node_id_from_blk p (net_pin_block (atom_netlist p) net_id ipin))
         [0 ..< length (net_pins (atom_netlist p) net_id)]"

section \<open>Sparse matrices and vectors\<close>

type_synonym triplet = "nat \<times> nat \<times> double"

record SparseMatrix =
  nrows :: nat
  ncols :: nat
  coeff :: "nat \<Rightarrow> nat \<Rightarrow> double"

text \<open>An empty matrix: every coefficient is zero.\<close>

definition zero_matrix :: "nat \<Rightarrow> nat \<Rightarrow> SparseMatrix" where
  "zero_matrix r c = \<lparr>nrows = r, ncols = c, coeff = (\<lambda>i j. Fin 0)\<rparr>"

text \<open>\<^verbatim>\<open>setFromTriplets\<close>: the triplets at the same position are summed.\<close>

definition triplet_at :: "nat \<Rightarrow> nat \<Rightarrow> triplet \<Rightarrow> bool" where
  "triplet_at i j t = (fst t = i \<and> fst (snd t) = j)"

definition triplet_sum :: "triplet list \<Rightarrow> nat \<Rightarrow> nat \<Rightarrow> double" where
  "triplet_sum ts i j = foldl dadd (Fin 0) (map (\<lambda>t. snd (snd t)) (filter (triplet_at i j) ts))"

definition setFromTriplets :: "nat \<Rightarrow> nat \<Rightarrow> triplet list \<Rightarrow> SparseMatrix" where
  "setFromTriplets r c ts = \<lparr>nrows = r, ncols = c, coeff = triplet_sum ts\<rparr>"

text \<open>
  \<^verbatim>\<open>A.coeffRef(i, j) += v\<close> and \<^verbatim>\<open>b(i) += v\<close>. An index beyond the dimensions is
  undefined in the library; the properties below speak of the indices within them.
\<close>

definition coeff_add :: "SparseMatrix \<Rightarrow> nat \<Rightarrow> nat \<Rightarrow> double \<Rightarrow> SparseMatrix" where
  "coeff_add A i j v =
     A\<lparr>coeff := (\<lambda>r c. if r = i \<and> c = j then dadd (coeff A r c) v else coeff A r c)\<rparr>"

definition vec_add :: "double list \<Rightarrow> nat \<Rightarrow> double \<Rightarrow> double list" where
  "vec_add b i v = b[i := dadd (b ! i) v]"

definition hasNaN :: "double list \<Rightarrow> bool" where
  "hasNaN b = (\<exists>v \<in> set b. isnan v)"

section \<open>Building the hybrid system\<close>

text \<open>The triplet list and the two right-hand sides while the system is assembled.\<close>

record assembly =
  tripletList :: "triplet list"
  rhs_x :: "double list"
  rhs_y :: "double list"

text \<open>First loop of \<^verbatim>\<open>populate_hybrid_matrix\<close>: the number of star nodes.\<close>

fun count_star_nodes :: "PartialPlacement \<Rightarrow> AtomNetId list \<Rightarrow> nat" where
  "count_star_nodes p [] = 0"
| "count_star_nodes p (net_id # rest) =
     (if net_is_ignored_for_placement p net_id then count_star_nodes p rest
      else if length (net_pins (atom_netlist p) net_id) > 3
           then Suc (count_star_nodes p rest)
           else count_star_nodes p rest)"

text \<open>The star branch: the loop over the pins of a net with more than three pins.\<close>

fun star_pins ::
  "PartialPlacement \<Rightarrow> double \<Rightarrow> nat \<Rightarrow> AtomPinId list \<Rightarrow> assembly \<Rightarrow> assembly" where
  "star_pins p w star_node_id [] a = a"
| "star_pins p w star_node_id (pin_id # rest) a =
     (let node_id = pin_node_id p pin_id in
      star_pins p w star_node_id rest
        (if is_moveable_node p node_id then
           a\<lparr>tripletList := tripletList a @
               [(star_node_id, star_node_id, w),
                (node_id, node_id, w),
                (star_node_id, node_id, dneg w),
                (node_id, star_node_id, dneg w)]\<rparr>
         else
           a\<lparr>tripletList := tripletList a @ [(star_node_id, star_node_id, w)],
             rhs_x := vec_add (rhs_x a) star_node_id (dmul w (node_loc_x p ! node_id)),
             rhs_y := vec_add (rhs_y a) star_node_id (dmul w (node_loc_y p ! node_id))\<rparr>))"

text \<open>
  The clique branch. \<open>clique_connect\<close> is the body of the inner loop once the first node
  is known to be moveable (the last \<^verbatim>\<open>if\<close>/\<^verbatim>\<open>else\<close> of the loop body).
\<close>

definition clique_connect ::
  "PartialPlacement \<Rightarrow> double \<Rightarrow> nat \<Rightarrow> nat \<Rightarrow> assembly \<Rightarrow> assembly" where
  "clique_connect p w first_node_id second_node_id a =
     (if is_moveable_node p second_node_id then
        a\<lparr>tripletList := tripletList a @
            [(first_node_id, first_node_id, w),
             (second_node_id, second_node_id, w),
             (first_node_id, second_node_id, dneg w),
             (second_node_id, first_node_id, dneg w)]\<rparr>
      else
        a\<lparr>tripletList := tripletList a @ [(first_node_id, first_node_id, w)],
          rhs_x := vec_add (rhs_x a) first_node_id (dmul w (node_loc_x p ! second_node_id)),
          rhs_y := vec_add (rhs_y a) first_node_id (dmul w (node_loc_y p ! second_node_id))\<rparr>)"

text \<open>
  The inner loop over \<open>jpin\<close>. The variable \<^verbatim>\<open>first_node_id\<close> is declared in the outer
  loop and \<^verbatim>\<open>std::swap\<close> assigns to it, so its value is carried from one \<open>jpin\<close> to the
  next: it is an argument of the recursion. The list holds the nodes of the pins
  \<open>ipin + 1, ..., num_pins - 1\<close>.
\<close>

fun clique_inner ::
  "PartialPlacement \<Rightarrow> double \<Rightarrow> nat \<Rightarrow> nat list \<Rightarrow> assembly \<Rightarrow> assembly" where
  "clique_inner p w first_node_id [] a = a"
| "clique_inner p w first_node_id (second_node_id # rest) a =
     (if \<not> is_moveable_node p first_node_id then
        (if \<not> is_moveable_node p second_node_id then
           clique_inner p w first_node_id rest a
         else
           clique_inner p w second_node_id rest
             (clique_connect p w second_node_id first_node_id a))
      else
        clique_inner p w first_node_id rest
          (clique_connect p w first_node_id second_node_id a))"

text \<open>The outer loop over \<open>ipin\<close>; the list holds the nodes of the pins from \<open>ipin\<close> on.\<close>

fun clique_outer ::
  "PartialPlacement \<Rightarrow> double \<Rightarrow> nat list \<Rightarrow> assembly \<Rightarrow> assembly" where
  "clique_outer p w [] a = a"
| "clique_outer p w (first_node_id # rest) a =
     clique_outer p w rest (clique_inner p w first_node_id rest a)"

text \<open>
  The weight \<open>w\<close> of the two branches, from the pin count as an \<^verbatim>\<open>int\<close>:
  \<^verbatim>\<open>static_cast<double>(num_pins) / static_cast<double>(num_pins - 1)\<close> for a star and
  \<^verbatim>\<open>1.0 / static_cast<double>(num_pins - 1)\<close> for a clique.
\<close>

definition star_weight :: "int \<Rightarrow> double" where
  "star_weight num_pins = ddiv (double_of_int num_pins) (double_of_int (num_pins - 1))"

definition clique_weight :: "int \<Rightarrow> double" where
  "clique_weight num_pins = ddiv (Fin 1) (double_of_int (num_pins - 1))"

text \<open>
  The body of the second loop over the nets: from the star-node offset and the assembly
  before a net to those after it, or to the failed assertion \<^verbatim>\<open>num_pins > 1\<close>.
\<close>

definition populate_net ::
  "build_config \<Rightarrow> PartialPlacement \<Rightarrow> AtomNetId \<Rightarrow> nat \<Rightarrow> assembly
     \<Rightarrow> vtr_error + (nat \<times> assembly)" where
  "populate_net bc p net_id star_node_offset a =
     (if net_is_ignored_for_placement p net_id then Inr (star_node_offset, a)
      else
        (let num_pins = int (length (net_pins (atom_netlist p) net_id)) in
         if assert_enabled bc \<and> \<not> num_pins > 1 then
           Inl (AssertionFailed ''num_pins > 1'')
         else if num_pins > 3 then
           Inr (star_node_offset + 1,
                star_pins p (star_weight num_pins)
                  (num_moveable_nodes p + star_node_offset)
                  (net_pins (atom_netlist p) net_id) a)
         else
           Inr (star_node_offset,
                clique_outer p (clique_weight num_pins) (net_node_ids p net_id) a)))"

fun populate_nets ::
  "build_config \<Rightarrow> PartialPlacement \<Rightarrow> AtomNetId list \<Rightarrow> nat \<Rightarrow> assembly
     \<Rightarrow> vtr_error + (nat \<times> assembly)" where
  "populate_nets bc p [] star_node_offset a = Inr (star_node_offset, a)"
| "populate_nets bc p (net_id # rest) star_node_offset a =
     (case populate_net bc p net_id star_node_offset a of
        Inl e \<Rightarrow> Inl e
      | Inr (star_node_offset', a') \<Rightarrow> populate_nets bc p rest star_node_offset' a')"

definition initial_assembly :: "nat \<Rightarrow> assembly" where
  "initial_assembly n =
     \<lparr>tripletList = [], rhs_x = replicate n (Fin 0), rhs_y = replicate n (Fin 0)\<rparr>"

definition hybrid_assembly ::
  "build_config \<Rightarrow> PartialPlacement \<Rightarrow> vtr_error + (nat \<times> assembly)" where
  "hybrid_assembly bc p =
     (let num_star_nodes = count_star_nodes p (nets (atom_netlist p)) in
      populate_nets bc p (nets (atom_netlist p)) 0
        (initial_assembly (num_moveable_nodes p + num_star_nodes)))"

text \<open>\<^verbatim>\<open>populate_hybrid_matrix\<close>: the matrix \<open>A\<close> and the vectors \<open>b_x\<close>, \<open>b_y\<close>.\<close>

definition populate_hybrid_matrix ::
  "build_config \<Rightarrow> PartialPlacement
     \<Rightarrow> vtr_error + (SparseMatrix \<times> double list \<times> double list)" where
  "populate_hybrid_matrix bc p =
     (let num_star_nodes = count_star_nodes p (nets (atom_netlist p));
          dim = num_moveable_nodes p + num_star_nodes
      in case hybrid_assembly bc p of
           Inl e \<Rightarrow> Inl e
         | Inr (star_node_offset, a) \<Rightarrow>
             Inr (setFromTriplets dim dim (tripletList a), rhs_x a, rhs_y a))"


section \<open>The pseudo-anchor update\<close>

text \<open>
  \<^verbatim>\<open>0.01 * std::exp((double)iteration/5)\<close>. The iteration counter is unsigned and only
  converted to double, so it is a natural number here.
\<close>

definition coeff_pseudo_anchor :: "nat \<Rightarrow> double" where
  "coeff_pseudo_anchor iteration =
     dmul (Fin (1 / 100)) (dexp (ddiv (double_of_nat iteration) (Fin 5)))"

type_synonym linear_system = "SparseMatrix \<times> double list \<times> double list"

definition update_node :: "PartialPlacement \<Rightarrow> double \<Rightarrow> nat \<Rightarrow> linear_system \<Rightarrow> linear_system" where
  "update_node p pseudo_w i sys =
     (case sys of (A_sparse_diff, b_x_diff, b_y_diff) \<Rightarrow>
        (coeff_add A_sparse_diff i i pseudo_w,
         vec_add b_x_diff i (dmul pseudo_w (node_loc_x p ! i)),
         vec_add b_y_diff i (dmul pseudo_w (node_loc_y p ! i))))"

definition populate_update_hybrid_matrix ::
  "linear_system \<Rightarrow> PartialPlacement \<Rightarrow> nat \<Rightarrow> linear_system" where
  "populate_update_hybrid_matrix sys p iteration =
     fold (update_node p (coeff_pseudo_anchor iteration)) [0 ..< num_moveable_nodes p] sys"

section \<open>The solver\<close>

record QPHybridSolver =
  A_sparse :: SparseMatrix
  b_x :: "double list"
  b_y :: "double list"

datatype ComputationInfo = Success | NumericalIssue | NoConvergence | InvalidInput

text \<open>
  The conjugate-gradient solver belongs to a linear-algebra library outside the
  repository. It is a parameter: what \<^verbatim>\<open>info()\<close> reports after \<^verbatim>\<open>compute\<close>, and the
  vector and status that \<^verbatim>\<open>solve\<close> gives for a matrix and a right-hand side.
\<close>

record ConjugateGradient =
  cg_compute :: "SparseMatrix \<Rightarrow> ComputationInfo"
  cg_solve :: "SparseMatrix \<Rightarrow> double list \<Rightarrow> double list \<times> ComputationInfo"

text \<open>
  The first part of \<^verbatim>\<open>QPHybridSolver::solve\<close>: the stored system is rebuilt at iteration
  0, and the system handed to the linear solver is the stored one, or at a later
  iteration a copy of it with the pseudo-anchors added.
\<close>

definition solve_system ::
  "build_config \<Rightarrow> nat \<Rightarrow> QPHybridSolver \<Rightarrow> PartialPlacement
     \<Rightarrow> vtr_error + (QPHybridSolver \<times> linear_system)" where
  "solve_system bc iteration s p =
     (case (if iteration = 0 then
              (case populate_hybrid_matrix bc p of
                 Inl e \<Rightarrow> Inl e
               | Inr (A, bx, by) \<Rightarrow> Inr (s\<lparr>A_sparse := A, b_x := bx, b_y := by\<rparr>))
            else Inr s) of
        Inl e \<Rightarrow> Inl e
      | Inr s' \<Rightarrow>
          (let sys = (A_sparse s', b_x s', b_y s') in
           Inr (s', if iteration \<noteq> 0 then populate_update_hybrid_matrix sys p iteration
                    else sys)))"

text \<open>The last loop of \<^verbatim>\<open>solve\<close>: the solution is written to the moveable nodes.\<close>

definition write_node :: "double list \<Rightarrow> double list \<Rightarrow> nat \<Rightarrow> PartialPlacement \<Rightarrow> PartialPlacement" where
  "write_node x y node_id p =
     p\<lparr>node_loc_x := (node_loc_x p)[node_id := x ! node_id],
       node_loc_y := (node_loc_y p)[node_id := y ! node_id]\<rparr>"

definition write_back :: "double list \<Rightarrow> double list \<Rightarrow> PartialPlacement \<Rightarrow> PartialPlacement" where
  "write_back x y p = fold (write_node x y) [0 ..< num_moveable_nodes p] p"

text \<open>
  The second part of \<^verbatim>\<open>solve\<close>: the assertions on the right-hand sides, the
  conjugate-gradient calls with the assertion after each, and the write-back.
\<close>

definition solve_linear ::
  "build_config \<Rightarrow> ConjugateGradient \<Rightarrow> linear_system \<Rightarrow> PartialPlacement
     \<Rightarrow> vtr_error + PartialPlacement" where
  "solve_linear bc cg sys p =
     (case sys of (A_sparse_diff, b_x_diff, b_y_diff) \<Rightarrow>
        if assert_debug_enabled bc \<and> hasNaN b_x_diff then
          Inl (AssertionFailed ''b_x has NaN!'')
        else if assert_debug_enabled bc \<and> hasNaN b_y_diff then
          Inl (AssertionFailed ''b_y has NaN!'')
        else if assert_enabled bc \<and> cg_compute cg A_sparse_diff \<noteq> Success then
          Inl (AssertionFailed ''Conjugate Gradient failed at compute!'')
        else
          (case cg_solve cg A_sparse_diff b_x_diff of (x, info_x) \<Rightarrow>
             if assert_enabled bc \<and> info_x \<noteq> Success then
               Inl (AssertionFailed ''Conjugate Gradient failed at solving b_x!'')
             else
               (case cg_solve cg A_sparse_diff b_y_diff of (y, info_y) \<Rightarrow>
                  if assert_enabled bc \<and> info_y \<noteq> Success then
                    Inl (AssertionFailed ''Conjugate Gradient failed at solving b_y!'')
                  else Inr (write_back x y p))))"

text \<open>
  \<^verbatim>\<open>QPHybridSolver::solve\<close>: the solver with its stored system and the placement with
  the new positions, or the assertion that ended the run.
\<close>

definition solve ::
  "build_config \<Rightarrow> ConjugateGradient \<Rightarrow> nat \<Rightarrow> QPHybridSolver \<Rightarrow> PartialPlacement
     \<Rightarrow> vtr_error + (QPHybridSolver \<times> PartialPlacement)" where
  "solve bc cg iteration s p =
     (case solve_system bc iteration s p of
        Inl e \<Rightarrow> Inl e
      | Inr (s', sys) \<Rightarrow>
          (case solve_linear bc cg sys p of
             Inl e \<Rightarrow> Inl e
           | Inr p' \<Rightarrow> Inr (s', p')))"

section \<open>The eigenvalue test\<close>

text \<open>
  The eigenvalue solver is a parameter like the conjugate-gradient solver: its status
  and the eigenvalues it reports for a matrix, each a pair of a real and an imaginary
  part.
\<close>

record SelfAdjointEigenSolver =
  eig_info :: "SparseMatrix \<Rightarrow> ComputationInfo"
  eig_eigenvalues :: "SparseMatrix \<Rightarrow> (double \<times> double) list"

fun eigenvalue_loop :: "build_config \<Rightarrow> (double \<times> double) list \<Rightarrow> vtr_error + bool" where
  "eigenvalue_loop bc [] = Inr True"
| "eigenvalue_loop bc (ev # rest) =
     (if assert_enabled bc \<and> \<not> deq (snd ev) (Fin 0) then
        Inl (AssertionFailed ''Eigenvalue not real!'')
      else if dle (fst ev) (Fin 0) then Inr False
      else eigenvalue_loop bc rest)"

definition isSemiPosDef ::
  "build_config \<Rightarrow> SelfAdjointEigenSolver \<Rightarrow> SparseMatrix \<Rightarrow> vtr_error + bool" where
  "isSemiPosDef bc solver A =
     (if assert_enabled bc \<and> eig_info solver A \<noteq> Success then
        Inl (AssertionFailed ''Eigen solver failed!'')
      else eigenvalue_loop bc (eig_eigenvalues solver A))"

section \<open>The placer: costs and the consistency check\<close>

text \<open>
  Of the placer, the cost record and what the constructor and the consistency check do
  to it. The member functions \<^verbatim>\<open>check_place_\<close>, \<^verbatim>\<open>check_placement_costs_\<close> and
  \<^verbatim>\<open>alloc_and_init_timing_objects_\<close> and the member \<^verbatim>\<open>costs_\<close> appear without their
  last underscore. The constructor names the algorithm \<^verbatim>\<open>BOUNDING_BOX_PLACE\<close> only; the
  other two values of the enumeration are the timing-driven algorithms.
\<close>

datatype e_place_algorithm =
  BOUNDING_BOX_PLACE | CRITICALITY_TIMING_PLACE | SLACK_TIMING_PLACE

datatype e_cost_methods = NORMAL | CHECK

record NocCostTerms =
  aggregate_bandwidth :: double
  latency :: double
  latency_overrun :: double
  congestion :: double

record t_placer_costs =
  cost :: double
  bb_cost :: double
  timing_cost :: double
  bb_cost_norm :: double
  timing_cost_norm :: double
  noc_cost_terms :: NocCostTerms
  noc_cost_norm_factors :: NocCostTerms

text \<open>
  What the placer reads from its options and from its collaborators (the net cost
  handler, the timing and NoC subsystems, the placement verifier), none of which is
  part of the sources at hand: each is a field holding what the call returns.
  \<open>is_timing_driven\<close> is the answer of \<^verbatim>\<open>place_algorithm.is_timing_driven()\<close>,
  \<open>initial_costs\<close> the cost record as its own constructor leaves it,
  \<open>initialize_timing_info\<close> the effect of that call on the cost record, and
  \<open>noc_normalization_factors\<close> the factors that \<^verbatim>\<open>update_noc_normalization_factors\<close>
  stores in it. The error counts are small numbers: the sum of \<^verbatim>\<open>check_place_\<close> is
  taken in the integers.
\<close>

record placer_env =
  place_algorithm :: e_place_algorithm
  is_timing_driven :: bool
  noc :: bool
  initial_costs :: t_placer_costs
  comp_bb_cost :: "e_cost_methods \<Rightarrow> double"
  initialize_timing_info :: "t_placer_costs \<Rightarrow> t_placer_costs"
  comp_td_costs :: double
  verify_placement :: nat
  comp_noc_aggregate_bandwidth_cost :: double
  comp_noc_latency_cost :: "double \<times> double"
  comp_noc_congestion_cost :: double
  noc_normalization_factors :: "t_placer_costs \<Rightarrow> NocCostTerms"
  check_noc_placement_costs :: "t_placer_costs \<Rightarrow> double \<Rightarrow> int"
  noc_routing_has_cycle :: bool
  get_total_cost :: "t_placer_costs \<Rightarrow> double"
  PL_INCREMENTAL_COST_TOLERANCE :: double

text \<open>
  The test of both comparisons in \<^verbatim>\<open>check_placement_costs_\<close>:
  \<^verbatim>\<open>fabs(check - tracked) > tracked * PL_INCREMENTAL_COST_TOLERANCE\<close>.
\<close>

definition costs_differ :: "placer_env \<Rightarrow> double \<Rightarrow> double \<Rightarrow> bool" where
  "costs_differ env cost_check tracked =
     dgt (dabs (dsub cost_check tracked)) (dmul tracked (PL_INCREMENTAL_COST_TOLERANCE env))"

definition check_placement_costs :: "placer_env \<Rightarrow> t_placer_costs \<Rightarrow> int" where
  "check_placement_costs env costs =
     (let error = 0;
          bb_cost_check = comp_bb_cost env CHECK;
          error = (if costs_differ env bb_cost_check (bb_cost costs) then error + 1 else error)
      in if is_timing_driven env then
           (let timing_cost_check = comp_td_costs env
            in if costs_differ env timing_cost_check (timing_cost costs) then error + 1
               else error)
         else error)"

definition check_place_errors :: "placer_env \<Rightarrow> t_placer_costs \<Rightarrow> int" where
  "check_place_errors env costs =
     (let error = 0;
          error = error + int (verify_placement env);
          error = error + check_placement_costs env costs
      in if noc env then
           (let error = error + check_noc_placement_costs env costs
                                  (PL_INCREMENTAL_COST_TOLERANCE env);
                error = error + (if noc_routing_has_cycle env then 1 else 0)
            in error)
         else error)"

text \<open>
  \<^verbatim>\<open>Placer::check_place_\<close>: \<open>Inr ()\<close> after the message of success, the error raised by
  \<^verbatim>\<open>VPR_ERROR\<close> with the number of errors otherwise.
\<close>

definition check_place :: "placer_env \<Rightarrow> t_placer_costs \<Rightarrow> vtr_error + unit" where
  "check_place env costs =
     (let error = check_place_errors env costs
      in if error = 0 then Inr () else Inl (PlaceError error))"

definition alloc_and_init_timing_objects ::
  "placer_env \<Rightarrow> t_placer_costs \<Rightarrow> vtr_error + t_placer_costs" where
  "alloc_and_init_timing_objects env costs =
     (let costs = initialize_timing_info env costs;
          costs = costs\<lparr>timing_cost_norm := ddiv (Fin 1) (timing_cost costs)\<rparr>
      in case check_place env costs of
           Inl e \<Rightarrow> Inl e
         | Inr u \<Rightarrow> Inr costs)"

text \<open>
  The constructor \<^verbatim>\<open>Placer::Placer\<close>, from the computation of the initial bounding-box
  cost on: the cost record it leaves, or the error that ended it.
\<close>

definition Placer :: "build_config \<Rightarrow> placer_env \<Rightarrow> vtr_error + t_placer_costs" where
  "Placer bc env =
     (let costs = initial_costs env;
          costs = costs\<lparr>bb_cost := comp_bb_cost env NORMAL\<rparr>;
          costs = costs\<lparr>bb_cost_norm := ddiv (Fin 1) (bb_cost costs)\<rparr>
      in case (if is_timing_driven env then alloc_and_init_timing_objects env costs
               else if assert_enabled bc \<and> place_algorithm env \<noteq> BOUNDING_BOX_PLACE then
                 Inl (AssertionFailed
                   ''placer_opts.place_algorithm == e_place_algorithm::BOUNDING_BOX_PLACE'')
               else Inr (costs\<lparr>timing_cost := NaN, timing_cost_norm := NaN\<rparr>)) of
           Inl e \<Rightarrow> Inl e
         | Inr costs \<Rightarrow>
             (let costs =
                    (if noc env then
                       (let costs = costs\<lparr>noc_cost_terms :=
                              \<lparr>aggregate_bandwidth = comp_noc_aggregate_bandwidth_cost env,
                               latency = fst (comp_noc_latency_cost env),
                               latency_overrun = snd (comp_noc_latency_cost env),
                               congestion = comp_noc_congestion_cost env\<rparr>\<rparr>
                        in costs\<lparr>noc_cost_norm_factors :=
                              noc_normalization_factors env costs\<rparr>)
                     else costs)
              in Inr (costs\<lparr>cost := get_total_cost env costs\<rparr>)))"


section \<open>Notions used to state the properties\<close>


definition good_triplet :: "(nat \<Rightarrow> bool) \<Rightarrow> double \<Rightarrow> triplet \<Rightarrow> bool" where
  "good_triplet U w t =
     (U (fst t) \<and> U (fst (snd t)) \<and> (snd (snd t) = w \<or> snd (snd t) = dneg w) \<and>
      (fst t \<noteq> fst (snd t) \<longrightarrow> snd (snd t) = dneg w))"

text \<open>
  The triplets appended between two assemblies all satisfy a property.
\<close>

definition extends_by :: "(triplet \<Rightarrow> bool) \<Rightarrow> assembly \<Rightarrow> assembly \<Rightarrow> bool" where
  "extends_by P a a' = (\<exists>ts. tripletList a' = tripletList a @ ts \<and> list_all P ts)"













text \<open>
  The pin orders on which the clique branch keeps its first node: at each pin on a
  fixed node, no later pin but the last is on a moveable node. A net of two pins always
  is of this kind, a net of three pins unless its first pin is on a fixed node and its
  second on a moveable one.
\<close>

fun first_node_kept :: "PartialPlacement \<Rightarrow> nat list \<Rightarrow> bool" where
  "first_node_kept p [] = True"
| "first_node_kept p (f # rest) =
     ((is_moveable_node p f \<or> list_all (\<lambda>x. \<not> is_moveable_node p x) (butlast rest)) \<and>
      first_node_kept p rest)"

definition pin_order_kept :: "PartialPlacement \<Rightarrow> AtomNetId list \<Rightarrow> bool" where
  "pin_order_kept p ns =
     list_all (\<lambda>net_id. net_is_ignored_for_placement p net_id \<or>
                        3 < length (net_pins (atom_netlist p) net_id) \<or>
                        first_node_kept p (net_node_ids p net_id)) ns"



section \<open>Example inputs\<close>

text \<open>
  The build with the assertions but not the debug assertions compiled in. A net of
  three pins on three moveable nodes, and one of four pins on four moveable nodes. A
  net of three pins on the moveable nodes 0 and 1 and the fixed node 2 at \<open>(5, 7)\<close>, the
  fixed node on the first pin (nodes \<open>[2, 0, 1]\<close> in pin order) or on the last
  (\<open>[0, 1, 2]\<close>), and the matrices of these two.
\<close>

definition default_build :: build_config where
  "default_build = \<lparr>assert_enabled = True, assert_debug_enabled = False\<rparr>"

definition three_moveable :: PartialPlacement where
  "three_moveable =
     \<lparr>atom_netlist = \<lparr>nets = [0], net_pins = (\<lambda>net_id. [0, 1, 2]), pin_block = (\<lambda>pin_id. pin_id)\<rparr>,
      num_moveable_nodes = 3,
      node_loc_x = [Fin 0, Fin 0, Fin 0], node_loc_y = [Fin 0, Fin 0, Fin 0],
      net_is_ignored_for_placement = (\<lambda>net_id. False),
      get_node_id_from_blk = (\<lambda>blk_id. blk_id)\<rparr>"


definition fixed_first :: PartialPlacement where
  "fixed_first =
     \<lparr>atom_netlist = \<lparr>nets = [0], net_pins = (\<lambda>net_id. [0, 1, 2]),
                       pin_block = (\<lambda>pin_id. pin_id)\<rparr>,
      num_moveable_nodes = 2,
      node_loc_x = [Fin 0, Fin 0, Fin 5], node_loc_y = [Fin 0, Fin 0, Fin 7],
      net_is_ignored_for_placement = (\<lambda>net_id. False),
      get_node_id_from_blk = (\<lambda>blk_id. if blk_id = 0 then 2 else blk_id - 1)\<rparr>"

definition fixed_last :: PartialPlacement where
  "fixed_last = fixed_first\<lparr>get_node_id_from_blk := (\<lambda>blk_id. blk_id)\<rparr>"

definition fixed_first_matrix :: SparseMatrix where
  "fixed_first_matrix =
     setFromTriplets 2 2
       [(0, 0, Fin (1 / 2)),
        (0, 0, Fin (1 / 2)), (1, 1, Fin (1 / 2)), (0, 1, Fin (- (1 / 2))), (1, 0, Fin (- (1 / 2))),
        (0, 0, Fin (1 / 2)), (1, 1, Fin (1 / 2)), (0, 1, Fin (- (1 / 2))), (1, 0, Fin (- (1 / 2)))]"

definition fixed_last_matrix :: SparseMatrix where
  "fixed_last_matrix =
     setFromTriplets 2 2
       [(0, 0, Fin (1 / 2)), (1, 1, Fin (1 / 2)), (0, 1, Fin (- (1 / 2))), (1, 0, Fin (- (1 / 2))),
        (0, 0, Fin (1 / 2)),
        (1, 1, Fin (1 / 2))]"

text \<open>
  One moveable node 0 and one fixed node 1 at a given position, joined by a net of two
  pins; linear solvers that return the right-hand side, which is the exact solution of
  the system built for this placement at iteration 0 (its matrix is \<open>(1)\<close>), and report
  success, or failure, or success for a finite right-hand side only; three builds; the
  solver before its first call and after the call at iteration 0 on this placement.
\<close>

definition pair_fixed_at :: "double \<Rightarrow> double \<Rightarrow> PartialPlacement" where
  "pair_fixed_at fx fy =
     \<lparr>atom_netlist = \<lparr>nets = [0], net_pins = (\<lambda>net_id. [0, 1]),
                       pin_block = (\<lambda>pin_id. pin_id)\<rparr>,
      num_moveable_nodes = 1,
      node_loc_x = [Fin 0, fx], node_loc_y = [Fin 0, fy],
      net_is_ignored_for_placement = (\<lambda>net_id. False),
      get_node_id_from_blk = (\<lambda>blk_id. blk_id)\<rparr>"

definition echo_solver :: ConjugateGradient where
  "echo_solver = \<lparr>cg_compute = (\<lambda>A. Success), cg_solve = (\<lambda>A b. (b, Success))\<rparr>"

definition failing_solver :: ConjugateGradient where
  "failing_solver = \<lparr>cg_compute = (\<lambda>A. Success), cg_solve = (\<lambda>A b. (b, NoConvergence))\<rparr>"

definition finite_only_solver :: ConjugateGradient where
  "finite_only_solver =
     \<lparr>cg_compute = (\<lambda>A. Success),
      cg_solve = (\<lambda>A b. (b, if list_all isfinite b then Success else NoConvergence))\<rparr>"

definition debug_build :: build_config where
  "debug_build = \<lparr>assert_enabled = True, assert_debug_enabled = True\<rparr>"

definition release_build :: build_config where
  "release_build = \<lparr>assert_enabled = False, assert_debug_enabled = False\<rparr>"

definition empty_solver :: QPHybridSolver where
  "empty_solver = \<lparr>A_sparse = zero_matrix 0 0, b_x = [], b_y = []\<rparr>"

definition pair_solver :: "double \<Rightarrow> double \<Rightarrow> QPHybridSolver" where
  "pair_solver bx by =
     \<lparr>A_sparse = setFromTriplets 1 1 [(0, 0, Fin 1)], b_x = [bx], b_y = [by]\<rparr>"

text \<open>
  Eigenvalue solvers reporting the spectrum \<open>2, 0\<close>, the spectrum \<open>2, 1\<close>, a NaN as the
  only eigenvalue, and the spectrum \<open>2, 1\<close> with a status other than success; a placer
  environment for a bounding-box run whose tracked bounding-box cost is 100, with the
  recomputed one as a parameter and a tolerance of one percent.
\<close>

definition semidefinite_spectrum :: SelfAdjointEigenSolver where
  "semidefinite_spectrum =
     \<lparr>eig_info = (\<lambda>A. Success), eig_eigenvalues = (\<lambda>A. [(Fin 2, Fin 0), (Fin 0, Fin 0)])\<rparr>"

definition positive_spectrum :: SelfAdjointEigenSolver where
  "positive_spectrum =
     \<lparr>eig_info = (\<lambda>A. Success), eig_eigenvalues = (\<lambda>A. [(Fin 2, Fin 0), (Fin 1, Fin 0)])\<rparr>"

definition nan_spectrum :: SelfAdjointEigenSolver where
  "nan_spectrum = \<lparr>eig_info = (\<lambda>A. Success), eig_eigenvalues = (\<lambda>A. [(NaN, Fin 0)])\<rparr>"

definition unconverged_spectrum :: SelfAdjointEigenSolver where
  "unconverged_spectrum =
     \<lparr>eig_info = (\<lambda>A. NoConvergence),
      eig_eigenvalues = (\<lambda>A. [(Fin 2, Fin 0), (Fin 1, Fin 0)])\<rparr>"

definition zero_noc_terms :: NocCostTerms where
  "zero_noc_terms =
     \<lparr>aggregate_bandwidth = Fin 0, latency = Fin 0, latency_overrun = Fin 0,
      congestion = Fin 0\<rparr>"

definition zero_costs :: t_placer_costs where
  "zero_costs =
     \<lparr>cost = Fin 0, bb_cost = Fin 0, timing_cost = Fin 0, bb_cost_norm = Fin 0,
      timing_cost_norm = Fin 0, noc_cost_terms = zero_noc_terms,
      noc_cost_norm_factors = zero_noc_terms\<rparr>"

definition bb_placer_env :: "double \<Rightarrow> placer_env" where
  "bb_placer_env bb_check =
     \<lparr>place_algorithm = BOUNDING_BOX_PLACE, is_timing_driven = False, noc = False,
      initial_costs = zero_costs,
      comp_bb_cost = (\<lambda>method. if method = NORMAL then Fin 100 else bb_check),
      initialize_timing_info = (\<lambda>costs. costs),
      comp_td_costs = Fin 0,
      verify_placement = 0,
      comp_noc_aggregate_bandwidth_cost = Fin 0,
      comp_noc_latency_cost = (Fin 0, Fin 0),
      comp_noc_congestion_cost = Fin 0,
      noc_normalization_factors = (\<lambda>costs. zero_noc_terms),
      check_noc_placement_costs = (\<lambda>costs tolerance. 0),
      noc_routing_has_cycle = False,
      get_total_cost = (\<lambda>costs. dmul (bb_cost costs) (bb_cost_norm costs)),
      PL_INCREMENTAL_COST_TOLERANCE = Fin (1 / 100)\<rparr>"


section \<open>The nodes of a net\<close>

lemma net_node_ids_pins:
  "net_node_ids p net_id = map (pin_node_id p) (net_pins (atom_netlist p) net_id)"
  by (rule nth_equalityI) (simp_all add: net_node_ids_def net_pin_block_def pin_node_id_def)

section \<open>Finite results and overflow\<close>

lemma DBL_MAX_ge: "1000000 \<le> DBL_MAX"
proof -
  have "(1000000::real) * 1 \<le> (2 ^ 53 - 1) * 2 ^ 971"
    by (rule mult_mono) simp_all
  then show ?thesis by (simp add: DBL_MAX_def)
qed

lemma DBL_MAX_less: "DBL_MAX < 2 ^ 1024"
proof -
  have "((2::real) ^ 53 - 1) * 2 ^ 971 < 2 ^ 53 * 2 ^ 971"
    by (rule mult_strict_right_mono) simp_all
  also have "\<dots> = 2 ^ 1024"
    by (simp flip: power_add)
  finally show ?thesis by (simp add: DBL_MAX_def)
qed

lemma dfin_Fin: "- DBL_MAX \<le> x \<Longrightarrow> x \<le> DBL_MAX \<Longrightarrow> dfin x = Fin x"
  by (simp add: dfin_def)

lemma dfin_small: "\<bar>x\<bar> \<le> 1000000 \<Longrightarrow> dfin x = Fin x"
  using DBL_MAX_ge by (intro dfin_Fin) linarith+

lemma exp_overflow:
  assumes "1024 \<le> x"
  shows "DBL_MAX < exp x"
proof -
  have "(2::real) \<le> exp 1"
    using exp_ge_add_one_self [of 1] by simp
  then have "(2::real) ^ 1024 \<le> exp 1 ^ 1024"
    by (intro power_mono) simp_all
  also have "\<dots> = exp (of_nat 1024 * 1)"
    by (rule exp_of_nat_mult [symmetric])
  also have "\<dots> \<le> exp x"
    using assms by simp
  finally show ?thesis using DBL_MAX_less by linarith
qed

section \<open>The pseudo-anchor weight and the iteration\<close>

lemma coeff_pseudo_anchor_value:
  "coeff_pseudo_anchor k =
     (if exp (real k / 5) \<le> DBL_MAX then Fin (exp (real k / 5) / 100) else PInf)"
proof (cases "real k / 5 \<le> DBL_MAX")
  case True
  have pos: "0 \<le> real k / 5" by simp
  have d: "ddiv (double_of_nat k) (Fin 5) = Fin (real k / 5)"
    using True pos DBL_MAX_ge by (simp add: double_of_nat_def dfin_def)
  show ?thesis
  proof (cases "exp (real k / 5) \<le> DBL_MAX")
    case e: True
    have "0 < exp (real k / 5)" by simp
    then have "dfin (exp (real k / 5)) = Fin (exp (real k / 5))"
      using e DBL_MAX_ge by (intro dfin_Fin) linarith+
    moreover have "dfin (exp (real k / 5) / 100) = Fin (exp (real k / 5) / 100)"
      using e DBL_MAX_ge \<open>0 < exp (real k / 5)\<close> by (intro dfin_Fin) linarith+
    ultimately show ?thesis
      using e by (simp add: coeff_pseudo_anchor_def d)
  next
    case False
    then have "dfin (exp (real k / 5)) = PInf"
      by (simp add: dfin_def)
    then show ?thesis
      using False by (simp add: coeff_pseudo_anchor_def d)
  qed
next
  case False
  then have d: "ddiv (double_of_nat k) (Fin 5) = PInf"
    by (simp add: double_of_nat_def dfin_def)
  have "1 + real k / 5 \<le> exp (real k / 5)"
    by (rule exp_ge_add_one_self)
  then have "\<not> exp (real k / 5) \<le> DBL_MAX"
    using False by linarith
  then show ?thesis
    by (simp add: coeff_pseudo_anchor_def d)
qed

lemma coeff_pseudo_anchor_overflow:
  "5120 \<le> k \<Longrightarrow> coeff_pseudo_anchor k = PInf"
proof -
  assume "5120 \<le> k"
  then have "1024 \<le> real k / 5" by simp
  then have "DBL_MAX < exp (real k / 5)" by (rule exp_overflow)
  then show ?thesis by (simp add: coeff_pseudo_anchor_value)
qed

text \<open>
  Claim C7, as amended. The pseudo-anchor weight \<open>0.01 * exp (k / 5)\<close> that
  \<open>populate_update_hybrid_matrix\<close> computes never decreases with the iteration, and it is
  strictly increasing as long as it is finite: whenever \<open>k1 < k2\<close>, the weight at \<open>k1\<close>
  is at most the weight at \<open>k2\<close>, and it is less when the weight at \<open>k2\<close> is finite.
\<close>

theorem pseudo_anchor_weight_increasing:
  "k1 < k2 \<Longrightarrow>
   dle (coeff_pseudo_anchor k1) (coeff_pseudo_anchor k2) \<and>
   (isfinite (coeff_pseudo_anchor k2) \<longrightarrow>
      dless (coeff_pseudo_anchor k1) (coeff_pseudo_anchor k2))"
proof -
  assume "k1 < k2"
  then have lt: "exp (real k1 / 5) < exp (real k2 / 5)" by simp
  show ?thesis
  proof (cases "exp (real k2 / 5) \<le> DBL_MAX")
    case True
    with lt have "exp (real k1 / 5) \<le> DBL_MAX" by linarith
    with True lt show ?thesis
      by (simp add: coeff_pseudo_anchor_value dle_def)
  next
    case False
    then show ?thesis
      by (simp add: coeff_pseudo_anchor_value dle_def)
  qed
qed

theorem pseudo_anchor_weight_increasing_witness:
  "(1::nat) < 2 \<and> isfinite (coeff_pseudo_anchor 2) \<and>
   dless (coeff_pseudo_anchor 1) (coeff_pseudo_anchor 2)"
proof -
  have "exp (2 / 5) \<le> exp (1::real)" by simp
  also have "\<dots> \<le> 3" by (rule exp_le)
  finally have "exp (real 2 / 5) \<le> DBL_MAX"
    using DBL_MAX_ge by simp
  then have f: "isfinite (coeff_pseudo_anchor 2)"
    by (simp add: coeff_pseudo_anchor_value)
  have "(1::nat) < 2" by simp
  from pseudo_anchor_weight_increasing [OF this] f show ?thesis by simp
qed

text \<open>
  The claim as stated fails where the exponential overflows: at the iterations 5120
  and 5125 the weight is the same infinity.
\<close>

theorem pseudo_anchor_weight_counterexample:
  "(5120::nat) < 5125 \<and>
   coeff_pseudo_anchor 5120 = PInf \<and> coeff_pseudo_anchor 5125 = PInf \<and>
   \<not> dless (coeff_pseudo_anchor 5120) (coeff_pseudo_anchor 5125)"
  by (simp add: coeff_pseudo_anchor_overflow)

section \<open>The weights of the nets\<close>

lemma clique_weight_value:
  assumes "1 < n"
  shows "clique_weight (int n) = Fin (1 / real (n - 1))"
proof -
  define t where "t = 1 / real (n - 1)"
  have "1 \<le> real (n - 1)" using assms by simp
  then have "0 < t" "t \<le> 1"
    by (simp_all add: t_def)
  then have "\<bar>t\<bar> \<le> 1000000" by linarith
  then have "dfin t = Fin t" by (rule dfin_small)
  moreover have "real_of_int (int n - 1) = real (n - 1)"
    using assms by (simp add: of_nat_diff)
  moreover have "real (n - 1) \<noteq> 0"
    using assms by simp
  ultimately show ?thesis
    unfolding t_def clique_weight_def double_of_int_def by simp
qed


lemma clique_inner_Nil: "clique_inner p w f [] a = a"
  by simp


section \<open>Symmetry of the assembled system\<close>

declare dfin_small [simp]
















section \<open>Where the triplets come from\<close>

lemma extends_by_refl: "extends_by P a a"
  by (simp add: extends_by_def)

lemma extends_by_trans:
  "extends_by P a b \<Longrightarrow> extends_by P b c \<Longrightarrow> extends_by P a c"
  by (auto simp: extends_by_def)



lemma clique_connect_extends:
  "U f \<Longrightarrow> (is_moveable_node p s \<Longrightarrow> U s) \<Longrightarrow>
   extends_by (good_triplet U w) a (clique_connect p w f s a)"
  by (auto simp: extends_by_def clique_connect_def good_triplet_def)

lemma clique_inner_extends:
  "f \<in> N \<Longrightarrow> set rest \<subseteq> N \<Longrightarrow>
   extends_by (good_triplet (\<lambda>i. i \<in> N \<and> is_moveable_node p i) w) a
     (clique_inner p w f rest a)"
proof (induction rest arbitrary: f a)
  case Nil
  then show ?case by (simp add: extends_by_refl)
next
  case (Cons s rest)
  let ?U = "\<lambda>i. i \<in> N \<and> is_moveable_node p i"
  show ?case
  proof (cases "is_moveable_node p f")
    case True
    have "extends_by (good_triplet ?U w) a (clique_connect p w f s a)"
      using True Cons.prems by (intro clique_connect_extends) auto
    moreover have "extends_by (good_triplet ?U w) (clique_connect p w f s a)
        (clique_inner p w f rest (clique_connect p w f s a))"
      using Cons.prems by (intro Cons.IH) auto
    ultimately have "extends_by (good_triplet ?U w) a
        (clique_inner p w f rest (clique_connect p w f s a))"
      by (rule extends_by_trans)
    then show ?thesis using True by simp
  next
    case False
    show ?thesis
    proof (cases "is_moveable_node p s")
      case True
      have "extends_by (good_triplet ?U w) a (clique_connect p w s f a)"
        using True False Cons.prems by (intro clique_connect_extends) auto
      moreover have "extends_by (good_triplet ?U w) (clique_connect p w s f a)
          (clique_inner p w s rest (clique_connect p w s f a))"
        using Cons.prems by (intro Cons.IH) auto
      ultimately have "extends_by (good_triplet ?U w) a
          (clique_inner p w s rest (clique_connect p w s f a))"
        by (rule extends_by_trans)
      then show ?thesis using True False by simp
    next
      case F2: False
      have "extends_by (good_triplet ?U w) a (clique_inner p w f rest a)"
        using Cons.prems by (intro Cons.IH) auto
      then show ?thesis using False F2 by simp
    qed
  qed
qed

lemma clique_outer_extends:
  "set ns \<subseteq> N \<Longrightarrow>
   extends_by (good_triplet (\<lambda>i. i \<in> N \<and> is_moveable_node p i) w) a
     (clique_outer p w ns a)"
proof (induction ns arbitrary: a)
  case Nil
  then show ?case by (simp add: extends_by_refl)
next
  case (Cons f rest)
  have "extends_by (good_triplet (\<lambda>i. i \<in> N \<and> is_moveable_node p i) w) a
          (clique_inner p w f rest a)"
    using Cons.prems by (intro clique_inner_extends) auto
  moreover have "extends_by (good_triplet (\<lambda>i. i \<in> N \<and> is_moveable_node p i) w)
          (clique_inner p w f rest a) (clique_outer p w rest (clique_inner p w f rest a))"
    using Cons.prems by (intro Cons.IH) auto
  ultimately have "extends_by (good_triplet (\<lambda>i. i \<in> N \<and> is_moveable_node p i) w) a
          (clique_outer p w rest (clique_inner p w f rest a))"
    by (rule extends_by_trans)
  then show ?case by simp
qed










section \<open>The weight of clique edges\<close>

text \<open>
  Claim C1, as amended. For a non-ignored net with \<open>1 < p \<le> 3\<close> pins, the net loop
  of \<open>populate_hybrid_matrix\<close> takes the clique branch, which appends triplets between
  moveable nodes only, each of value \<open>1 / (p - 1)\<close> or its negation, and of the
  negation off the diagonal: a clique edge has weight \<open>1 / (p - 1)\<close>, not
  \<open>p / (p - 1)\<close>. A net whose three pins are on moveable nodes yields the three
  pairwise edges, each of weight \<open>1 / 2\<close>.
\<close>

theorem clique_edges_weight:
  assumes ign: "\<not> net_is_ignored_for_placement p net_id"
    and np: "num_pins = length (net_pins (atom_netlist p) net_id)"
    and lo: "1 < num_pins" and hi: "num_pins \<le> 3"
  shows "\<exists>a' ts. populate_net bc p net_id off a = Inr (off, a') \<and>
           tripletList a' = tripletList a @ ts \<and>
           (\<forall>t \<in> set ts.
              is_moveable_node p (fst t) \<and> is_moveable_node p (fst (snd t)) \<and>
              (snd (snd t) = Fin (1 / real (num_pins - 1)) \<or>
               snd (snd t) = Fin (- (1 / real (num_pins - 1)))) \<and>
              (fst t \<noteq> fst (snd t) \<longrightarrow> snd (snd t) = Fin (- (1 / real (num_pins - 1))))) \<and>
           (\<forall>n0 n1 n2.
              net_node_ids p net_id = [n0, n1, n2] \<and> is_moveable_node p n0 \<and>
              is_moveable_node p n1 \<and> is_moveable_node p n2 \<longrightarrow>
              ts = [(n0, n0, Fin (1 / 2)), (n1, n1, Fin (1 / 2)),
                    (n0, n1, Fin (- (1 / 2))), (n1, n0, Fin (- (1 / 2))),
                    (n0, n0, Fin (1 / 2)), (n2, n2, Fin (1 / 2)),
                    (n0, n2, Fin (- (1 / 2))), (n2, n0, Fin (- (1 / 2))),
                    (n1, n1, Fin (1 / 2)), (n2, n2, Fin (1 / 2)),
                    (n1, n2, Fin (- (1 / 2))), (n2, n1, Fin (- (1 / 2)))])"
proof -
  let ?w = "clique_weight (int num_pins)"
  let ?a' = "clique_outer p ?w (net_node_ids p net_id) a"
  have w: "?w = Fin (1 / real (num_pins - 1))"
    using lo by (rule clique_weight_value)
  have run: "populate_net bc p net_id off a = Inr (off, ?a')"
    using ign np lo hi by (simp add: populate_net_def Let_def)
  have "extends_by (good_triplet (\<lambda>i. i \<in> set (net_node_ids p net_id) \<and> is_moveable_node p i) ?w)
          a ?a'"
    by (rule clique_outer_extends) simp
  then obtain ts where ts: "tripletList ?a' = tripletList a @ ts"
    and good: "list_all (good_triplet (\<lambda>i. i \<in> set (net_node_ids p net_id) \<and> is_moveable_node p i) ?w) ts"
    by (auto simp: extends_by_def)
  have weights: "\<forall>t \<in> set ts.
              is_moveable_node p (fst t) \<and> is_moveable_node p (fst (snd t)) \<and>
              (snd (snd t) = Fin (1 / real (num_pins - 1)) \<or>
               snd (snd t) = Fin (- (1 / real (num_pins - 1)))) \<and>
              (fst t \<noteq> fst (snd t) \<longrightarrow> snd (snd t) = Fin (- (1 / real (num_pins - 1))))"
    using good by (auto simp: list_all_iff good_triplet_def w)
  have three: "ts = [(n0, n0, Fin (1 / 2)), (n1, n1, Fin (1 / 2)),
                    (n0, n1, Fin (- (1 / 2))), (n1, n0, Fin (- (1 / 2))),
                    (n0, n0, Fin (1 / 2)), (n2, n2, Fin (1 / 2)),
                    (n0, n2, Fin (- (1 / 2))), (n2, n0, Fin (- (1 / 2))),
                    (n1, n1, Fin (1 / 2)), (n2, n2, Fin (1 / 2)),
                    (n1, n2, Fin (- (1 / 2))), (n2, n1, Fin (- (1 / 2)))]"
    if ids: "net_node_ids p net_id = [n0, n1, n2]"
      and mv: "is_moveable_node p n0" "is_moveable_node p n1" "is_moveable_node p n2"
    for n0 n1 n2
  proof -
    have "length (net_node_ids p net_id) = num_pins"
      by (simp add: net_node_ids_pins np)
    then have "num_pins = 3" using ids by simp
    then have w3: "?w = Fin (1 / 2)" using w by simp
    have "tripletList ?a' = tripletList a @
                   [(n0, n0, Fin (1 / 2)), (n1, n1, Fin (1 / 2)),
                    (n0, n1, Fin (- (1 / 2))), (n1, n0, Fin (- (1 / 2))),
                    (n0, n0, Fin (1 / 2)), (n2, n2, Fin (1 / 2)),
                    (n0, n2, Fin (- (1 / 2))), (n2, n0, Fin (- (1 / 2))),
                    (n1, n1, Fin (1 / 2)), (n2, n2, Fin (1 / 2)),
                    (n1, n2, Fin (- (1 / 2))), (n2, n1, Fin (- (1 / 2)))]"
      unfolding ids w3 using mv by (simp add: clique_connect_def)
    with ts show ?thesis by simp
  qed
  from run ts weights three show ?thesis by blast
qed

theorem clique_edges_weight_witness:
  "tripletList (snd (projr (populate_net default_build three_moveable 0 0 (initial_assembly 3)))) =
     [(0, 0, Fin (1 / 2)), (1, 1, Fin (1 / 2)), (0, 1, Fin (- (1 / 2))), (1, 0, Fin (- (1 / 2))),
      (0, 0, Fin (1 / 2)), (2, 2, Fin (1 / 2)), (0, 2, Fin (- (1 / 2))), (2, 0, Fin (- (1 / 2))),
      (1, 1, Fin (1 / 2)), (2, 2, Fin (1 / 2)), (1, 2, Fin (- (1 / 2))), (2, 1, Fin (- (1 / 2)))]"
proof -
  have ign: "\<not> net_is_ignored_for_placement three_moveable 0"
    by (simp add: three_moveable_def)
  have np: "3 = length (net_pins (atom_netlist three_moveable) 0)"
    by (simp add: three_moveable_def)
  have ids: "net_node_ids three_moveable 0 = [0, 1, 2]"
    by (simp add: three_moveable_def net_node_ids_pins pin_node_id_def)
  have mv: "is_moveable_node three_moveable 0" "is_moveable_node three_moveable 1"
    "is_moveable_node three_moveable 2"
    by (simp_all add: three_moveable_def is_moveable_node_def)
  from clique_edges_weight [OF ign np, of default_build 0 "initial_assembly 3"] ids mv
  show ?thesis
    by (auto simp: initial_assembly_def)
qed

text \<open>
  The claim as stated fails on a net with three pins on three moveable nodes: its edges
  have weight \<open>1 / 2\<close>, not \<open>3 / (3 - 1)\<close>.
\<close>

theorem clique_weight_counterexample:
  "hybrid_assembly default_build three_moveable =
     Inr (0, \<lparr>tripletList =
       [(0, 0, Fin (1 / 2)), (1, 1, Fin (1 / 2)), (0, 1, Fin (- (1 / 2))), (1, 0, Fin (- (1 / 2))),
        (0, 0, Fin (1 / 2)), (2, 2, Fin (1 / 2)), (0, 2, Fin (- (1 / 2))), (2, 0, Fin (- (1 / 2))),
        (1, 1, Fin (1 / 2)), (2, 2, Fin (1 / 2)), (1, 2, Fin (- (1 / 2))), (2, 1, Fin (- (1 / 2)))],
       rhs_x = [Fin 0, Fin 0, Fin 0], rhs_y = [Fin 0, Fin 0, Fin 0]\<rparr>)
   \<and> Fin (1 / 2) \<noteq> Fin (3 / (3 - 1))"
  by (simp add: hybrid_assembly_def three_moveable_def default_build_def populate_net_def
      initial_assembly_def net_node_ids_pins pin_node_id_def clique_weight_def double_of_int_def
      clique_connect_def is_moveable_node_def numeral_3_eq_3)

section \<open>Evaluating the assembly on examples\<close>

lemmas eval_defs = hybrid_assembly_def populate_net_def
      initial_assembly_def net_node_ids_pins pin_node_id_def clique_weight_def double_of_int_def
      clique_connect_def is_moveable_node_def vec_add_def default_build_def

lemma replicate_2: "replicate 2 x = [x, x]"
  by (simp add: numeral_2_eq_2)


section \<open>The assembled matrix\<close>
















lemma populate_net_returns:
  "\<not> assert_enabled bc \<or> net_is_ignored_for_placement p net \<or>
     1 < length (net_pins (atom_netlist p) net) \<Longrightarrow>
   \<exists>r. populate_net bc p net off a = Inr r"
  by (auto simp: populate_net_def Let_def)

lemma populate_nets_returns:
  "\<forall>net \<in> set ns. \<not> assert_enabled bc \<or> net_is_ignored_for_placement p net \<or>
     1 < length (net_pins (atom_netlist p) net) \<Longrightarrow>
   \<exists>r. populate_nets bc p ns off a = Inr r"
proof (induction ns arbitrary: off a)
  case Nil
  then show ?case by simp
next
  case (Cons net ns)
  then obtain off1 a1 where "populate_net bc p net off a = Inr (off1, a1)"
    using populate_net_returns[of bc p net off a] by auto
  moreover have "\<exists>r. populate_nets bc p ns off1 a1 = Inr r"
    using Cons by simp
  ultimately show ?case by simp
qed

lemma populate_hybrid_matrix_returns:
  assumes "\<forall>net \<in> set (nets (atom_netlist p)).
     \<not> assert_enabled bc \<or> net_is_ignored_for_placement p net \<or>
     1 < length (net_pins (atom_netlist p) net)"
  shows "\<exists>r. populate_hybrid_matrix bc p = Inr r"
proof -
  from populate_nets_returns[OF assms] obtain off a where
    "hybrid_assembly bc p = Inr (off, a)"
    unfolding hybrid_assembly_def Let_def by fastforce
  then show ?thesis
    by (simp add: populate_hybrid_matrix_def Let_def)
qed


section \<open>The clique branch and the order of the pins\<close>

text \<open>
  Claim C5, on the code as it is. A net of three pins whose first pin is on the fixed
  node 2 (at \<open>(5, 7)\<close>) and whose other pins are on the moveable nodes 0 and 1: after the
  swap for the pair of the first two pins, \<open>first_node_id\<close> stays node 0, so the pair of
  the first and the third pin is treated as the pair of nodes 0 and 1. Node 1 gets no
  contribution from the fixed node (its right-hand sides stay 0) and the edge between
  0 and 1 is added twice. The same net with the fixed node on the last pin gets one
  edge and both fixed contributions.
\<close>

theorem stale_first_node_evaluation:
  "hybrid_assembly default_build fixed_first =
     Inr (0, \<lparr>tripletList =
        [(0, 0, Fin (1 / 2)),
         (0, 0, Fin (1 / 2)), (1, 1, Fin (1 / 2)), (0, 1, Fin (- (1 / 2))), (1, 0, Fin (- (1 / 2))),
         (0, 0, Fin (1 / 2)), (1, 1, Fin (1 / 2)), (0, 1, Fin (- (1 / 2))), (1, 0, Fin (- (1 / 2)))],
        rhs_x = [Fin (5 / 2), Fin 0], rhs_y = [Fin (7 / 2), Fin 0]\<rparr>)
   \<and> hybrid_assembly default_build fixed_last =
     Inr (0, \<lparr>tripletList =
        [(0, 0, Fin (1 / 2)), (1, 1, Fin (1 / 2)), (0, 1, Fin (- (1 / 2))), (1, 0, Fin (- (1 / 2))),
         (0, 0, Fin (1 / 2)),
         (1, 1, Fin (1 / 2))],
        rhs_x = [Fin (5 / 2), Fin (5 / 2)], rhs_y = [Fin (7 / 2), Fin (7 / 2)]\<rparr>)"
  by (simp add: eval_defs fixed_first_def fixed_last_def replicate_2)

lemma fixed_first_assembly:
  "hybrid_assembly default_build fixed_first =
     Inr (0, \<lparr>tripletList =
        [(0, 0, Fin (1 / 2)),
         (0, 0, Fin (1 / 2)), (1, 1, Fin (1 / 2)), (0, 1, Fin (- (1 / 2))), (1, 0, Fin (- (1 / 2))),
         (0, 0, Fin (1 / 2)), (1, 1, Fin (1 / 2)), (0, 1, Fin (- (1 / 2))), (1, 0, Fin (- (1 / 2)))],
        rhs_x = [Fin (5 / 2), Fin 0], rhs_y = [Fin (7 / 2), Fin 0]\<rparr>)"
  by (simp add: eval_defs fixed_first_def replicate_2)

lemma fixed_last_assembly:
  "hybrid_assembly default_build fixed_last =
     Inr (0, \<lparr>tripletList =
        [(0, 0, Fin (1 / 2)), (1, 1, Fin (1 / 2)), (0, 1, Fin (- (1 / 2))), (1, 0, Fin (- (1 / 2))),
         (0, 0, Fin (1 / 2)),
         (1, 1, Fin (1 / 2))],
        rhs_x = [Fin (5 / 2), Fin (5 / 2)], rhs_y = [Fin (7 / 2), Fin (7 / 2)]\<rparr>)"
  by (simp add: eval_defs fixed_first_def fixed_last_def replicate_2)

lemma fixed_first_dim:
  "num_moveable_nodes fixed_first + count_star_nodes fixed_first (nets (atom_netlist fixed_first)) = 2"
  "num_moveable_nodes fixed_last + count_star_nodes fixed_last (nets (atom_netlist fixed_last)) = 2"
  by (simp_all add: fixed_first_def fixed_last_def)

text \<open>
  Claim C4, on the code as it is. For the same net, whose weight is \<open>1 / 2\<close>: with the
  fixed node on the first pin, the entry between the moveable nodes 0 and 1 is \<open>- 1\<close>,
  twice the negated net weight, the diagonal entry of node 0 is \<open>3 / 2\<close>, and the
  contribution of the fixed node to node 1 is in no diagonal entry and no right-hand
  side. With the fixed node on the last pin, the entry is \<open>- 1 / 2\<close>, both diagonal
  entries are 1, and both nodes have the contribution of the fixed node in their
  right-hand sides. In both cases the matrix is symmetric and has no entry for the
  fixed node.
\<close>

theorem stale_first_node_matrix:
  "populate_hybrid_matrix default_build fixed_first =
     Inr (fixed_first_matrix, [Fin (5 / 2), Fin 0], [Fin (7 / 2), Fin 0])
   \<and> coeff fixed_first_matrix 0 0 = Fin (3 / 2)
   \<and> coeff fixed_first_matrix 0 1 = Fin (- 1)
   \<and> coeff fixed_first_matrix 1 0 = Fin (- 1)
   \<and> coeff fixed_first_matrix 1 1 = Fin 1
   \<and> populate_hybrid_matrix default_build fixed_last =
     Inr (fixed_last_matrix, [Fin (5 / 2), Fin (5 / 2)], [Fin (7 / 2), Fin (7 / 2)])
   \<and> coeff fixed_last_matrix 0 0 = Fin 1
   \<and> coeff fixed_last_matrix 0 1 = Fin (- (1 / 2))
   \<and> coeff fixed_last_matrix 1 0 = Fin (- (1 / 2))
   \<and> coeff fixed_last_matrix 1 1 = Fin 1
   \<and> clique_weight 3 = Fin (1 / 2)"
proof -
  have 1: "populate_hybrid_matrix default_build fixed_first =
     Inr (fixed_first_matrix, [Fin (5 / 2), Fin 0], [Fin (7 / 2), Fin 0])"
    unfolding populate_hybrid_matrix_def Let_def fixed_first_assembly fixed_first_dim
      fixed_first_matrix_def by simp
  have 2: "populate_hybrid_matrix default_build fixed_last =
     Inr (fixed_last_matrix, [Fin (5 / 2), Fin (5 / 2)], [Fin (7 / 2), Fin (7 / 2)])"
    unfolding populate_hybrid_matrix_def Let_def fixed_last_assembly fixed_first_dim
      fixed_last_matrix_def by simp
  have 3: "coeff fixed_first_matrix 0 0 = Fin (3 / 2)" "coeff fixed_first_matrix 0 1 = Fin (- 1)"
    "coeff fixed_first_matrix 1 0 = Fin (- 1)" "coeff fixed_first_matrix 1 1 = Fin 1"
    by (simp_all add: fixed_first_matrix_def setFromTriplets_def triplet_sum_def triplet_at_def)
  have 4: "coeff fixed_last_matrix 0 0 = Fin 1" "coeff fixed_last_matrix 0 1 = Fin (- (1 / 2))"
    "coeff fixed_last_matrix 1 0 = Fin (- (1 / 2))" "coeff fixed_last_matrix 1 1 = Fin 1"
    by (simp_all add: fixed_last_matrix_def setFromTriplets_def triplet_sum_def triplet_at_def)
  have 5: "clique_weight 3 = Fin (1 / 2)"
    by (simp add: clique_weight_def double_of_int_def)
  from 1 2 3 4 5 show ?thesis by simp
qed

section \<open>The system of the nets\<close>


















section \<open>The solver: the system of each iteration\<close>


lemma pair_matrix:
  "populate_hybrid_matrix bc (pair_fixed_at fx fy) =
     Inr (setFromTriplets 1 1 [(0, 0, Fin 1)],
          [dadd (Fin 0) (dmul (Fin 1) fx)], [dadd (Fin 0) (dmul (Fin 1) fy)])"
proof -
  have c: "count_star_nodes (pair_fixed_at fx fy) (nets (atom_netlist (pair_fixed_at fx fy))) = 0"
    by (simp add: pair_fixed_at_def)
  have n: "num_moveable_nodes (pair_fixed_at fx fy) = 1"
    by (simp add: pair_fixed_at_def)
  have "hybrid_assembly bc (pair_fixed_at fx fy) =
     Inr (0, \<lparr>tripletList = [(0, 0, Fin 1)],
              rhs_x = [dadd (Fin 0) (dmul (Fin 1) fx)],
              rhs_y = [dadd (Fin 0) (dmul (Fin 1) fy)]\<rparr>)"
    by (simp add: hybrid_assembly_def populate_net_def initial_assembly_def net_node_ids_pins
        pin_node_id_def clique_weight_def double_of_int_def clique_connect_def
        is_moveable_node_def vec_add_def pair_fixed_at_def)
  then show ?thesis
    unfolding populate_hybrid_matrix_def Let_def c n by simp
qed

lemma pair_system_0:
  "solve_system bc 0 s (pair_fixed_at fx fy) =
     Inr (s\<lparr>A_sparse := setFromTriplets 1 1 [(0, 0, Fin 1)],
            b_x := [dadd (Fin 0) (dmul (Fin 1) fx)],
            b_y := [dadd (Fin 0) (dmul (Fin 1) fy)]\<rparr>,
          setFromTriplets 1 1 [(0, 0, Fin 1)],
          [dadd (Fin 0) (dmul (Fin 1) fx)], [dadd (Fin 0) (dmul (Fin 1) fy)])"
  by (simp add: solve_system_def pair_matrix)




lemma first_node_kept_three:
  "first_node_kept p [a, b, c] = (is_moveable_node p a \<or> \<not> is_moveable_node p b)"
  by simp

lemma first_node_kept_two: "first_node_kept p [a, b]"
  by simp

lemma fixed_first_not_kept:
  "\<not> pin_order_kept fixed_first (nets (atom_netlist fixed_first))"
  by (simp add: pin_order_kept_def fixed_first_def net_node_ids_pins pin_node_id_def
      is_moveable_node_def)




section \<open>The solver: writing the solution back\<close>

lemma map_upt_update:
  "(map (\<lambda>i. if i < m then x ! i else l ! i) [0 ..< n])[m := x ! m] =
   map (\<lambda>i. if i < Suc m then x ! i else l ! i) [0 ..< n]"
  by (rule nth_equalityI) (auto simp: nth_list_update less_Suc_eq)

lemma write_back_fold:
  "fold (write_node x y) [0 ..< m] p =
     p\<lparr>node_loc_x := map (\<lambda>i. if i < m then x ! i else node_loc_x p ! i)
                         [0 ..< length (node_loc_x p)],
       node_loc_y := map (\<lambda>i. if i < m then y ! i else node_loc_y p ! i)
                         [0 ..< length (node_loc_y p)]\<rparr>"
proof (induction m)
  case 0
  show ?case by (simp add: map_nth)
next
  case (Suc m)
  have "fold (write_node x y) [0 ..< Suc m] p =
          write_node x y m (fold (write_node x y) [0 ..< m] p)"
    by simp
  also have "\<dots> = p\<lparr>node_loc_x := map (\<lambda>i. if i < Suc m then x ! i else node_loc_x p ! i)
                         [0 ..< length (node_loc_x p)],
       node_loc_y := map (\<lambda>i. if i < Suc m then y ! i else node_loc_y p ! i)
                         [0 ..< length (node_loc_y p)]\<rparr>"
    unfolding Suc.IH write_node_def by (simp add: map_upt_update)
  finally show ?case .
qed

lemma write_back_closed:
  "write_back x y p =
     p\<lparr>node_loc_x := map (\<lambda>i. if i < num_moveable_nodes p then x ! i else node_loc_x p ! i)
                         [0 ..< length (node_loc_x p)],
       node_loc_y := map (\<lambda>i. if i < num_moveable_nodes p then y ! i else node_loc_y p ! i)
                         [0 ..< length (node_loc_y p)]\<rparr>"
  by (simp add: write_back_def write_back_fold)


lemma solve_linear_Inr:
  "solve_linear bc cg (A, bx, by) p = Inr p' \<Longrightarrow>
   p' = write_back (fst (cg_solve cg A bx)) (fst (cg_solve cg A by)) p"
  by (auto simp: solve_linear_def split: if_splits prod.splits)

text \<open>
  Claim C8. After a successful \<open>solve\<close> the placement differs from the one before in
  the positions of the moveable nodes only: on both axes the entries \<open>0 .. n - 1\<close> hold
  the solution of the linear solver and the entries from \<open>n\<close> on, the fixed nodes, are
  the old ones. The entries of the solution beyond \<open>n\<close>, those of the star nodes, are
  not stored anywhere.
\<close>

theorem solve_writes_moveable_only:
  assumes "solve bc cg k s p = Inr (s', p')"
    and "num_moveable_nodes p \<le> length (node_loc_x p)"
    and "num_moveable_nodes p \<le> length (node_loc_y p)"
  shows "\<exists>A bx by.
           solve_system bc k s p = Inr (s', (A, bx, by)) \<and>
           p' = p\<lparr>node_loc_x :=
                     map (\<lambda>i. if i < num_moveable_nodes p then fst (cg_solve cg A bx) ! i
                              else node_loc_x p ! i) [0 ..< length (node_loc_x p)],
                   node_loc_y :=
                     map (\<lambda>i. if i < num_moveable_nodes p then fst (cg_solve cg A by) ! i
                              else node_loc_y p ! i) [0 ..< length (node_loc_y p)]\<rparr>"
proof -
  from assms(1) obtain A bx "by" where
    sys: "solve_system bc k s p = Inr (s', (A, bx, by))" and
    lin: "solve_linear bc cg (A, bx, by) p = Inr p'"
    by (auto simp: solve_def split: sum.splits)
  have "p' = write_back (fst (cg_solve cg A bx)) (fst (cg_solve cg A by)) p"
    using lin by (rule solve_linear_Inr)
  then show ?thesis using sys by (auto simp: write_back_closed)
qed

lemma pair_solve_echo:
  "solve default_build echo_solver 0 empty_solver (pair_fixed_at (Fin 5) (Fin 7)) =
     Inr (pair_solver (Fin 5) (Fin 7),
          (pair_fixed_at (Fin 5) (Fin 7))\<lparr>node_loc_x := [Fin 5, Fin 5],
                                           node_loc_y := [Fin 7, Fin 7]\<rparr>)"
  unfolding solve_def pair_system_0
  by (simp add: solve_linear_def default_build_def echo_solver_def
      hasNaN_def write_back_def write_node_def pair_fixed_at_def empty_solver_def pair_solver_def)

theorem solve_writes_moveable_only_witness:
  "\<exists>A bx by.
     solve_system default_build 0 empty_solver (pair_fixed_at (Fin 5) (Fin 7))
       = Inr (pair_solver (Fin 5) (Fin 7), (A, bx, by)) \<and>
     (pair_fixed_at (Fin 5) (Fin 7))\<lparr>node_loc_x := [Fin 5, Fin 5], node_loc_y := [Fin 7, Fin 7]\<rparr> =
     (pair_fixed_at (Fin 5) (Fin 7))
       \<lparr>node_loc_x := [fst (cg_solve echo_solver A bx) ! 0, Fin 5],
        node_loc_y := [fst (cg_solve echo_solver A by) ! 0, Fin 7]\<rparr>"
proof -
  have l: "num_moveable_nodes (pair_fixed_at (Fin 5) (Fin 7))
             \<le> length (node_loc_x (pair_fixed_at (Fin 5) (Fin 7)))"
    "num_moveable_nodes (pair_fixed_at (Fin 5) (Fin 7))
             \<le> length (node_loc_y (pair_fixed_at (Fin 5) (Fin 7)))"
    by (simp_all add: pair_fixed_at_def)
  have u: "[0 ..< length (node_loc_x (pair_fixed_at (Fin 5) (Fin 7)))] = [0, 1]"
    "[0 ..< length (node_loc_y (pair_fixed_at (Fin 5) (Fin 7)))] = [0, 1]"
    by (simp_all add: pair_fixed_at_def upt_rec)
  have n: "num_moveable_nodes (pair_fixed_at (Fin 5) (Fin 7)) = 1"
    "node_loc_x (pair_fixed_at (Fin 5) (Fin 7)) ! 1 = Fin 5"
    "node_loc_y (pair_fixed_at (Fin 5) (Fin 7)) ! 1 = Fin 7"
    by (simp_all add: pair_fixed_at_def)
  from solve_writes_moveable_only [OF pair_solve_echo l] n
  show ?thesis by (simp add: u)
qed


section \<open>The solver: failure\<close>

lemma pair_system_overflow:
  "solve_system bc 5120 (pair_solver (Fin 5) (Fin 7)) (pair_fixed_at (Fin 5) (Fin 7)) =
     Inr (pair_solver (Fin 5) (Fin 7),
          coeff_add (setFromTriplets 1 1 [(0, 0, Fin 1)]) 0 0 PInf, [NaN], [NaN])"
  by (simp add: solve_system_def populate_update_hybrid_matrix_def update_node_def
      coeff_pseudo_anchor_overflow pair_solver_def pair_fixed_at_def vec_add_def)

text \<open>
  Claim C3, as amended. In a build with the assertions compiled in, \<open>solve\<close> ends with a
  failed assertion, and returns no placement, whenever the linear solver reports
  anything but success after \<open>compute\<close> or after the solve of either axis. A right-hand
  side with a value that is not finite ends the run in the same way, by the assertion
  after the solve of its axis, with a linear solver that does not report success on
  such a right-hand side; a NaN in it already ends the run before the linear solver is
  called where the debug assertions are compiled in as well. A placement is returned
  only when all three statuses were success, and it then holds the solutions of the
  linear solver.
\<close>

theorem solve_aborts_on_failure:
  assumes "solve_system bc k s p = Inr (s', (A, bx, by))"
    and "assert_enabled bc"
  shows "(cg_compute cg A \<noteq> Success \<or> snd (cg_solve cg A bx) \<noteq> Success \<or>
          snd (cg_solve cg A by) \<noteq> Success
            \<longrightarrow> (\<exists>msg. solve bc cg k s p = Inl (AssertionFailed msg)))
       \<and> ((\<forall>b. \<not> list_all isfinite b \<longrightarrow> snd (cg_solve cg A b) \<noteq> Success) \<and>
          (\<not> list_all isfinite bx \<or> \<not> list_all isfinite by)
            \<longrightarrow> (\<exists>msg. solve bc cg k s p = Inl (AssertionFailed msg)))
       \<and> (assert_debug_enabled bc \<and> (hasNaN bx \<or> hasNaN by)
            \<longrightarrow> (\<exists>msg. solve bc cg k s p = Inl (AssertionFailed msg)))
       \<and> (\<forall>s'' p'. solve bc cg k s p = Inr (s'', p') \<longrightarrow>
            cg_compute cg A = Success \<and> snd (cg_solve cg A bx) = Success \<and>
            snd (cg_solve cg A by) = Success \<and>
            s'' = s' \<and>
            p' = write_back (fst (cg_solve cg A bx)) (fst (cg_solve cg A by)) p)"
proof -
  have 1: "cg_compute cg A \<noteq> Success \<or> snd (cg_solve cg A bx) \<noteq> Success \<or>
          snd (cg_solve cg A by) \<noteq> Success
            \<longrightarrow> (\<exists>msg. solve bc cg k s p = Inl (AssertionFailed msg))"
    using assms by (auto simp: solve_def solve_linear_def split: prod.splits)
  have 2: "(\<forall>b. \<not> list_all isfinite b \<longrightarrow> snd (cg_solve cg A b) \<noteq> Success) \<and>
          (\<not> list_all isfinite bx \<or> \<not> list_all isfinite by)
            \<longrightarrow> (\<exists>msg. solve bc cg k s p = Inl (AssertionFailed msg))"
    using 1 by blast
  have 3: "assert_debug_enabled bc \<and> (hasNaN bx \<or> hasNaN by)
            \<longrightarrow> (\<exists>msg. solve bc cg k s p = Inl (AssertionFailed msg))"
    using assms by (auto simp: solve_def solve_linear_def split: prod.splits)
  have 4: "\<forall>s'' p'. solve bc cg k s p = Inr (s'', p') \<longrightarrow>
            cg_compute cg A = Success \<and> snd (cg_solve cg A bx) = Success \<and>
            snd (cg_solve cg A by) = Success \<and>
            s'' = s' \<and>
            p' = write_back (fst (cg_solve cg A bx)) (fst (cg_solve cg A by)) p"
    using assms by (auto simp: solve_def solve_linear_def split: prod.splits if_splits)
  from 1 2 3 4 show ?thesis by (intro conjI)
qed

theorem solve_aborts_on_failure_witness:
  "(\<exists>msg. solve default_build failing_solver 0 empty_solver (pair_fixed_at (Fin 5) (Fin 7))
            = Inl (AssertionFailed msg))
   \<and> (\<exists>msg. solve default_build finite_only_solver 5120 (pair_solver (Fin 5) (Fin 7))
              (pair_fixed_at (Fin 5) (Fin 7))
            = Inl (AssertionFailed msg))
   \<and> (\<exists>msg. solve debug_build finite_only_solver 0 empty_solver (pair_fixed_at NaN (Fin 7))
            = Inl (AssertionFailed msg))"
proof -
  let ?A = "setFromTriplets 1 1 [(0, 0, Fin 1)]"
  have d: "assert_enabled default_build" "assert_enabled debug_build"
    by (simp_all add: default_build_def debug_build_def)
  have "cg_compute failing_solver ?A \<noteq> Success \<or>
        snd (cg_solve failing_solver ?A [dadd (Fin 0) (dmul (Fin 1) (Fin 5))]) \<noteq> Success \<or>
        snd (cg_solve failing_solver ?A [dadd (Fin 0) (dmul (Fin 1) (Fin 7))]) \<noteq> Success"
    by (simp add: failing_solver_def)
  with solve_aborts_on_failure [OF pair_system_0 d(1), of failing_solver]
  have 1: "\<exists>msg. solve default_build failing_solver 0 empty_solver (pair_fixed_at (Fin 5) (Fin 7))
            = Inl (AssertionFailed msg)"
    by blast
  have "(\<forall>b. \<not> list_all isfinite b \<longrightarrow>
            snd (cg_solve finite_only_solver
                   (coeff_add (setFromTriplets 1 1 [(0, 0, Fin 1)]) 0 0 PInf) b) \<noteq> Success) \<and>
        (\<not> list_all isfinite [NaN] \<or> \<not> list_all isfinite [NaN])"
    by (simp add: finite_only_solver_def)
  with solve_aborts_on_failure [OF pair_system_overflow d(1), of finite_only_solver]
  have 2: "\<exists>msg. solve default_build finite_only_solver 5120 (pair_solver (Fin 5) (Fin 7))
              (pair_fixed_at (Fin 5) (Fin 7))
            = Inl (AssertionFailed msg)"
    by blast
  have "assert_debug_enabled debug_build \<and>
          (hasNaN [dadd (Fin 0) (dmul (Fin 1) NaN)] \<or> hasNaN [dadd (Fin 0) (dmul (Fin 1) (Fin 7))])"
    by (simp add: debug_build_def hasNaN_def)
  with solve_aborts_on_failure [OF pair_system_0 d(2), of finite_only_solver]
  have 3: "\<exists>msg. solve debug_build finite_only_solver 0 empty_solver (pair_fixed_at NaN (Fin 7))
            = Inl (AssertionFailed msg)"
    by blast
  from 1 2 3 show ?thesis by blast
qed

text \<open>
  The claim as stated fails on the code in a build without the assertions: nothing
  then looks at the status of the linear solver. At iteration 0 a solve of either axis
  that did not converge is written to the placement as it is. At iteration 5120 the
  pseudo-anchor weight is infinite, its product with the position 0 of the moveable
  node is NaN, both right-hand sides hold it, and the NaN that the linear solver leaves
  is written to the placement.
\<close>

theorem assertions_compiled_out_counterexample:
  "\<not> assert_enabled release_build
   \<and> snd (cg_solve failing_solver (setFromTriplets 1 1 [(0, 0, Fin 1)]) [Fin 5]) = NoConvergence
   \<and> solve release_build failing_solver 0 empty_solver (pair_fixed_at (Fin 5) (Fin 7)) =
       Inr (pair_solver (Fin 5) (Fin 7),
            (pair_fixed_at (Fin 5) (Fin 7))\<lparr>node_loc_x := [Fin 5, Fin 5],
                                             node_loc_y := [Fin 7, Fin 7]\<rparr>)
   \<and> solve_system release_build 5120 (pair_solver (Fin 5) (Fin 7))
         (pair_fixed_at (Fin 5) (Fin 7)) =
       Inr (pair_solver (Fin 5) (Fin 7),
            coeff_add (setFromTriplets 1 1 [(0, 0, Fin 1)]) 0 0 PInf, [NaN], [NaN])
   \<and> \<not> isfinite NaN
   \<and> solve release_build failing_solver 5120 (pair_solver (Fin 5) (Fin 7))
         (pair_fixed_at (Fin 5) (Fin 7)) =
       Inr (pair_solver (Fin 5) (Fin 7),
            (pair_fixed_at (Fin 5) (Fin 7))\<lparr>node_loc_x := [NaN, Fin 5],
                                             node_loc_y := [NaN, Fin 7]\<rparr>)"
  unfolding solve_def pair_system_0 pair_system_overflow
  by (simp add: solve_linear_def release_build_def
      failing_solver_def hasNaN_def write_back_def write_node_def
      pair_fixed_at_def empty_solver_def pair_solver_def)

section \<open>The result of the eigenvalue test\<close>

lemma not_dle_zero: "(\<not> dle a (Fin 0)) = (dless (Fin 0) a \<or> isnan a)"
  by (cases a) (auto simp: dle_def)

lemma eigenvalue_loop_True:
  "(eigenvalue_loop bc evs = Inr True) =
     ((assert_enabled bc \<longrightarrow> (\<forall>ev \<in> set evs. deq (snd ev) (Fin 0))) \<and>
      (\<forall>ev \<in> set evs. dless (Fin 0) (fst ev) \<or> isnan (fst ev)))"
  by (induction evs) (auto simp: not_dle_zero simp flip: not_dle_zero)

lemma eigenvalue_loop_no_assert:
  "assert_enabled bc \<longrightarrow> (\<forall>ev \<in> set evs. deq (snd ev) (Fin 0)) \<Longrightarrow>
   eigenvalue_loop bc evs = Inr (\<forall>ev \<in> set evs. dless (Fin 0) (fst ev) \<or> isnan (fst ev))"
  by (induction evs) (auto simp flip: not_dle_zero)

text \<open>
  Claim C9, as amended. \<open>isSemiPosDef\<close> returns true if and only if none of its
  assertions fails, that is, in a build with the assertions the eigenvalue solver
  reports success and every eigenvalue has the imaginary part zero, and every
  eigenvalue is strictly positive or NaN. When none of its assertions fails and some
  eigenvalue is zero, as for a positive-semidefinite matrix that is not definite, it
  returns false.
\<close>

theorem isSemiPosDef_positive_or_nan:
  "(isSemiPosDef bc solver A = Inr True) =
     ((assert_enabled bc \<longrightarrow>
         eig_info solver A = Success \<and>
         (\<forall>ev \<in> set (eig_eigenvalues solver A). deq (snd ev) (Fin 0))) \<and>
      (\<forall>ev \<in> set (eig_eigenvalues solver A). dless (Fin 0) (fst ev) \<or> isnan (fst ev)))
   \<and> ((assert_enabled bc \<longrightarrow>
          eig_info solver A = Success \<and>
          (\<forall>ev \<in> set (eig_eigenvalues solver A). deq (snd ev) (Fin 0))) \<and>
       (\<exists>ev \<in> set (eig_eigenvalues solver A). fst ev = Fin 0)
       \<longrightarrow> isSemiPosDef bc solver A = Inr False)"
proof (intro conjI impI)
  show "(isSemiPosDef bc solver A = Inr True) =
     ((assert_enabled bc \<longrightarrow>
         eig_info solver A = Success \<and>
         (\<forall>ev \<in> set (eig_eigenvalues solver A). deq (snd ev) (Fin 0))) \<and>
      (\<forall>ev \<in> set (eig_eigenvalues solver A). dless (Fin 0) (fst ev) \<or> isnan (fst ev)))"
    by (auto simp: isSemiPosDef_def eigenvalue_loop_True)
next
  assume h: "(assert_enabled bc \<longrightarrow>
          eig_info solver A = Success \<and>
          (\<forall>ev \<in> set (eig_eigenvalues solver A). deq (snd ev) (Fin 0))) \<and>
       (\<exists>ev \<in> set (eig_eigenvalues solver A). fst ev = Fin 0)"
  then obtain ev where ev: "ev \<in> set (eig_eigenvalues solver A)" "fst ev = Fin 0" by blast
  then have "\<not> (\<forall>ev \<in> set (eig_eigenvalues solver A). dless (Fin 0) (fst ev) \<or> isnan (fst ev))"
    by force
  moreover have "isSemiPosDef bc solver A =
      Inr (\<forall>ev \<in> set (eig_eigenvalues solver A). dless (Fin 0) (fst ev) \<or> isnan (fst ev))"
    using h by (simp add: isSemiPosDef_def eigenvalue_loop_no_assert)
  ultimately show "isSemiPosDef bc solver A = Inr False" by simp
qed

theorem isSemiPosDef_positive_or_nan_witness:
  "isSemiPosDef default_build semidefinite_spectrum
     (setFromTriplets 2 2 [(0, 0, Fin 1), (1, 1, Fin 1), (0, 1, Fin (- 1)), (1, 0, Fin (- 1))])
   = Inr False
   \<and> isSemiPosDef default_build positive_spectrum
     (setFromTriplets 2 2 [(0, 0, Fin 2), (1, 1, Fin 1)])
   = Inr True"
proof -
  let ?A = "setFromTriplets 2 2 [(0, 0, Fin 1), (1, 1, Fin 1), (0, 1, Fin (- 1)), (1, 0, Fin (- 1))]"
  let ?B = "setFromTriplets 2 2 [(0, 0, Fin 2), (1, 1, Fin 1)]"
  have z: "(assert_enabled default_build \<longrightarrow>
          eig_info semidefinite_spectrum ?A = Success \<and>
          (\<forall>ev \<in> set (eig_eigenvalues semidefinite_spectrum ?A). deq (snd ev) (Fin 0))) \<and>
       (\<exists>ev \<in> set (eig_eigenvalues semidefinite_spectrum ?A). fst ev = Fin 0)"
    by (simp add: semidefinite_spectrum_def)
  from isSemiPosDef_positive_or_nan [of default_build semidefinite_spectrum ?A] z
  have 1: "isSemiPosDef default_build semidefinite_spectrum ?A = Inr False"
    by blast
  have pos: "(assert_enabled default_build \<longrightarrow>
         eig_info positive_spectrum ?B = Success \<and>
         (\<forall>ev \<in> set (eig_eigenvalues positive_spectrum ?B). deq (snd ev) (Fin 0))) \<and>
      (\<forall>ev \<in> set (eig_eigenvalues positive_spectrum ?B). dless (Fin 0) (fst ev) \<or> isnan (fst ev))"
    by (simp add: positive_spectrum_def)
  from isSemiPosDef_positive_or_nan [of default_build positive_spectrum ?B] pos
  have 2: "isSemiPosDef default_build positive_spectrum ?B = Inr True"
    by blast
  from 1 2 show ?thesis by blast
qed

text \<open>
  The claim as stated fails on the code in two ways. The test \<^verbatim>\<open>real() <= 0\<close> is false
  for a NaN, so a spectrum that holds a NaN and otherwise positive eigenvalues gives
  true although not every eigenvalue is strictly positive. And in a build with the
  assertions, when the eigenvalue solver reports a status other than success, the run
  ends on the assertion and nothing is returned, whatever the eigenvalues are.
\<close>

theorem nan_eigenvalue_counterexample:
  "eig_eigenvalues nan_spectrum (setFromTriplets 1 1 [(0, 0, NaN)]) = [(NaN, Fin 0)]
   \<and> \<not> dless (Fin 0) NaN
   \<and> isSemiPosDef default_build nan_spectrum (setFromTriplets 1 1 [(0, 0, NaN)]) = Inr True
   \<and> eig_eigenvalues unconverged_spectrum (setFromTriplets 2 2 [(0, 0, Fin 2), (1, 1, Fin 1)])
       = [(Fin 2, Fin 0), (Fin 1, Fin 0)]
   \<and> dless (Fin 0) (Fin 2) \<and> dless (Fin 0) (Fin 1)
   \<and> isSemiPosDef default_build unconverged_spectrum
       (setFromTriplets 2 2 [(0, 0, Fin 2), (1, 1, Fin 1)])
       = Inl (AssertionFailed ''Eigen solver failed!'')"
  by (simp add: isSemiPosDef_def nan_spectrum_def unconverged_spectrum_def default_build_def
      dle_def)


section \<open>The consistency check of the placer\<close>

text \<open>
  Claim C2. \<open>check_placement_costs\<close> recomputes the bounding-box cost in \<open>CHECK\<close> mode
  and, in a timing-driven run, the timing cost; each recomputed cost that differs from
  the tracked one by more than the tracked cost times the tolerance counts one error.
  \<open>check_place\<close> adds these to the errors of the placement verifier and, with the NoC
  enabled, of the NoC checks; it reports success if and only if the total is zero, and
  otherwise ends the run with an error that carries the total.
\<close>

theorem check_place_counts_errors:
  "check_placement_costs env costs =
     (if dgt (dabs (dsub (comp_bb_cost env CHECK) (bb_cost costs)))
             (dmul (bb_cost costs) (PL_INCREMENTAL_COST_TOLERANCE env)) then 1 else 0) +
     (if is_timing_driven env \<and>
         dgt (dabs (dsub (comp_td_costs env) (timing_cost costs)))
             (dmul (timing_cost costs) (PL_INCREMENTAL_COST_TOLERANCE env)) then 1 else 0)
   \<and> check_place_errors env costs =
       int (verify_placement env) + check_placement_costs env costs +
       (if noc env then
          check_noc_placement_costs env costs (PL_INCREMENTAL_COST_TOLERANCE env) +
          (if noc_routing_has_cycle env then 1 else 0)
        else 0)
   \<and> (check_place env costs = Inr ()) = (check_place_errors env costs = 0)
   \<and> (check_place_errors env costs \<noteq> 0 \<longrightarrow>
        check_place env costs = Inl (PlaceError (check_place_errors env costs)))"
  by (simp add: check_placement_costs_def check_place_errors_def check_place_def costs_differ_def
      Let_def)


theorem check_place_counts_errors_witness:
  "check_place (bb_placer_env (Fin 102)) (zero_costs\<lparr>bb_cost := Fin 100\<rparr>) = Inl (PlaceError 1)
   \<and> check_place (bb_placer_env (Fin 100)) (zero_costs\<lparr>bb_cost := Fin 100\<rparr>) = Inr ()"
proof -
  let ?c = "zero_costs\<lparr>bb_cost := Fin 100\<rparr>"
  have e1: "check_place_errors (bb_placer_env (Fin 102)) ?c = 1"
    using check_place_counts_errors [of "bb_placer_env (Fin 102)" ?c]
    by (simp add: bb_placer_env_def zero_costs_def dgt_def dsub_def)
  have e0: "check_place_errors (bb_placer_env (Fin 100)) ?c = 0"
    using check_place_counts_errors [of "bb_placer_env (Fin 100)" ?c]
    by (simp add: bb_placer_env_def zero_costs_def dgt_def dsub_def)
  from e1 check_place_counts_errors [of "bb_placer_env (Fin 102)" ?c]
  have "check_place (bb_placer_env (Fin 102)) ?c = Inl (PlaceError 1)" by simp
  moreover from e0 check_place_counts_errors [of "bb_placer_env (Fin 100)" ?c]
  have "check_place (bb_placer_env (Fin 100)) ?c = Inr ()" by simp
  ultimately show ?thesis by blast
qed


section \<open>Runs that are not timing-driven\<close>

text \<open>
  Claim C10. In a run that is not timing-driven the constructor, which asserts the
  algorithm to be \<open>BOUNDING_BOX_PLACE\<close>, leaves the timing cost and its normalization
  factor at NaN. On every cost record, the one the constructor leaves or a later one,
  the cost check of such a run counts the bounding-box comparison only: its result
  does not depend on the timing cost of the record nor on the timing cost recomputed
  from scratch, and the errors that \<open>check_place\<close> counts are those of the placement
  verifier, of the bounding-box comparison and, with the NoC enabled, of the NoC checks.
\<close>

theorem bounding_box_run_skips_timing_check:
  assumes "\<not> is_timing_driven env"
  shows "(place_algorithm env = BOUNDING_BOX_PLACE \<or> \<not> assert_enabled bc \<longrightarrow>
            (\<exists>costs. Placer bc env = Inr costs \<and>
               timing_cost costs = NaN \<and> timing_cost_norm costs = NaN \<and>
               bb_cost costs = comp_bb_cost env NORMAL))
       \<and> (place_algorithm env \<noteq> BOUNDING_BOX_PLACE \<and> assert_enabled bc \<longrightarrow>
            (\<exists>msg. Placer bc env = Inl (AssertionFailed msg)))
       \<and> (\<forall>costs. check_placement_costs env costs =
             (if dgt (dabs (dsub (comp_bb_cost env CHECK) (bb_cost costs)))
                     (dmul (bb_cost costs) (PL_INCREMENTAL_COST_TOLERANCE env)) then 1 else 0))
       \<and> (\<forall>costs v t. check_placement_costs (env\<lparr>comp_td_costs := v\<rparr>)
                          (costs\<lparr>timing_cost := t\<rparr>) =
                        check_placement_costs env costs)
       \<and> (\<forall>costs. check_place_errors env costs =
             int (verify_placement env) +
             (if dgt (dabs (dsub (comp_bb_cost env CHECK) (bb_cost costs)))
                     (dmul (bb_cost costs) (PL_INCREMENTAL_COST_TOLERANCE env)) then 1 else 0) +
             (if noc env then
                check_noc_placement_costs env costs (PL_INCREMENTAL_COST_TOLERANCE env) +
                (if noc_routing_has_cycle env then 1 else 0)
              else 0))"
  using assms
  by (simp add: Placer_def Let_def check_placement_costs_def check_place_errors_def
      costs_differ_def)

theorem bounding_box_run_skips_timing_check_witness:
  "(\<exists>costs. Placer default_build (bb_placer_env (Fin 102)) = Inr costs \<and>
      timing_cost costs = NaN \<and> timing_cost_norm costs = NaN)
   \<and> check_placement_costs ((bb_placer_env (Fin 100))\<lparr>comp_td_costs := Fin 1000\<rparr>)
        (zero_costs\<lparr>bb_cost := Fin 100, timing_cost := Fin 1\<rparr>) = 0
   \<and> check_placement_costs (bb_placer_env (Fin 102))
        (zero_costs\<lparr>bb_cost := Fin 100, timing_cost := Fin 1\<rparr>) = 1"
proof -
  have a: "\<not> is_timing_driven (bb_placer_env (Fin 102))"
    by (simp add: bb_placer_env_def)
  have b: "\<not> is_timing_driven ((bb_placer_env (Fin 100))\<lparr>comp_td_costs := Fin 1000\<rparr>)"
    by (simp add: bb_placer_env_def)
  have alg: "place_algorithm (bb_placer_env (Fin 102)) = BOUNDING_BOX_PLACE"
    by (simp add: bb_placer_env_def)
  from bounding_box_run_skips_timing_check [OF a, of default_build] alg
  have 1: "\<exists>costs. Placer default_build (bb_placer_env (Fin 102)) = Inr costs \<and>
      timing_cost costs = NaN \<and> timing_cost_norm costs = NaN"
    by blast
  from bounding_box_run_skips_timing_check [OF b, of default_build]
  have "check_placement_costs ((bb_placer_env (Fin 100))\<lparr>comp_td_costs := Fin 1000\<rparr>)
        (zero_costs\<lparr>bb_cost := Fin 100, timing_cost := Fin 1\<rparr>) =
        (if dgt (dabs (dsub (comp_bb_cost ((bb_placer_env (Fin 100))\<lparr>comp_td_costs := Fin 1000\<rparr>) CHECK)
                         (bb_cost (zero_costs\<lparr>bb_cost := Fin 100, timing_cost := Fin 1\<rparr>))))
                (dmul (bb_cost (zero_costs\<lparr>bb_cost := Fin 100, timing_cost := Fin 1\<rparr>))
                   (PL_INCREMENTAL_COST_TOLERANCE ((bb_placer_env (Fin 100))\<lparr>comp_td_costs := Fin 1000\<rparr>)))
         then 1 else 0)"
    by blast
  then have 2: "check_placement_costs ((bb_placer_env (Fin 100))\<lparr>comp_td_costs := Fin 1000\<rparr>)
        (zero_costs\<lparr>bb_cost := Fin 100, timing_cost := Fin 1\<rparr>) = 0"
    by (simp add: bb_placer_env_def zero_costs_def dgt_def dsub_def)
  from bounding_box_run_skips_timing_check [OF a, of default_build]
  have "check_placement_costs (bb_placer_env (Fin 102))
        (zero_costs\<lparr>bb_cost := Fin 100, timing_cost := Fin 1\<rparr>) =
        (if dgt (dabs (dsub (comp_bb_cost (bb_placer_env (Fin 102)) CHECK)
                         (bb_cost (zero_costs\<lparr>bb_cost := Fin 100, timing_cost := Fin 1\<rparr>))))
                (dmul (bb_cost (zero_costs\<lparr>bb_cost := Fin 100, timing_cost := Fin 1\<rparr>))
                   (PL_INCREMENTAL_COST_TOLERANCE (bb_placer_env (Fin 102))))
         then 1 else 0)"
    by blast
  then have 3: "check_placement_costs (bb_placer_env (Fin 102))
        (zero_costs\<lparr>bb_cost := Fin 100, timing_cost := Fin 1\<rparr>) = 1"
    by (simp add: bb_placer_env_def zero_costs_def dgt_def dsub_def)
  from 1 2 3 show ?thesis by blast
qed


end
